theory Spec2Isabelle
  imports Main "HOL-Library.Word"
begin

unbundle bit_operations_syntax

section \<open>Python values, strings and bytes\<close>

text \<open>
  A Python \<open>str\<close> is a sequence of code points, a \<open>bytes\<close> object a sequence of octets.
  A transport frame is a byte sequence together with its "more frames follow" mark.
\<close>

type_synonym ustr = "nat list"
type_synonym byte = "8 word"
type_synonym bytes = "byte list"
type_synonym frame = "bytes \<times> bool"

definition str :: "string \<Rightarrow> ustr" where
  "str cs = map of_char cs"

text \<open>
  The values that travel through the messaging methods: header values, the elements of
  the tuples given to \<open>send_message_ex\<close>, and what a JSON text decodes to. Tuples and
  lists are both \<open>PList\<close> (JSON knows one array only); floats are left out.
\<close>

datatype pyval =
    PNone
  | PBool bool
  | PInt int
  | PStr ustr
  | PBytes bytes
  | PList "pyval list"
  | PDict "(ustr \<times> pyval) list"

type_synonym dict = "(ustr \<times> pyval) list"

datatype error =
    TypeError
  | ValueError
  | IndexError
  | UnicodeEncodeError
  | UnicodeDecodeError
  | JSONDecodeError
  | Again

text \<open>
  Iterating a value, as \<open>zip\<close> does with each of its arguments: a list or tuple gives its
  items, a string its characters, a bytes object its octets, a dict its keys; anything
  else is not iterable (\<open>None\<close> here, a \<open>TypeError\<close> in the caller).
\<close>

fun py_iter :: "pyval \<Rightarrow> pyval list option" where
  "py_iter (PList xs) = Some xs"
| "py_iter (PStr u) = Some (map (\<lambda>c. PStr [c]) u)"
| "py_iter (PBytes b) = Some (map (\<lambda>w. PInt (uint w)) b)"
| "py_iter (PDict kvs) = Some (map (\<lambda>kv. PStr (fst kv)) kvs)"
| "py_iter PNone = None"
| "py_iter (PBool _) = None"
| "py_iter (PInt _) = None"

text \<open>
  \<open>zip(*rows)\<close>: the columns of the rows, as many as the shortest row has items, and
  none at all when there is no row.
\<close>

function py_zip :: "'a list list \<Rightarrow> 'a list list" where
  "py_zip rows =
     (if rows = [] \<or> (\<exists>r \<in> set rows. r = []) then []
      else map hd rows # py_zip (map tl rows))"
  by pat_completeness auto
termination
proof (relation "measure (\<lambda>rows. length (hd rows))")
  show "wf (measure (\<lambda>rows. length (hd rows)))" by simp
next
  fix rows :: "'a list list"
  assume a: "\<not> (rows = [] \<or> (\<exists>r \<in> set rows. r = []))"
  then obtain r rs where rows: "rows = r # rs" by (cases rows) auto
  with a have "r \<noteq> []" by auto
  then have "length (tl r) < length r" by (cases r) auto
  with rows show "(map tl rows, rows) \<in> measure (\<lambda>rows. length (hd rows))" by simp
qed

declare py_zip.simps [simp del]

section \<open>UTF-8\<close>

text \<open>
  \<open>str.encode('utf-8')\<close> and \<open>bytes.decode('utf-8')\<close>, both strict: a surrogate code point
  does not encode, and an overlong form, an encoded surrogate, a value above U+10FFFF, a
  stray continuation byte or a truncated sequence does not decode.
\<close>

definition surrogate :: "nat \<Rightarrow> bool" where
  "surrogate c \<longleftrightarrow> 0xD800 \<le> c \<and> c \<le> 0xDFFF"

definition encode_cp :: "nat \<Rightarrow> nat list option" where
  "encode_cp c =
     (if c < 0x80 then Some [c]
      else if c < 0x800 then Some [0xC0 + c div 64, 0x80 + c mod 64]
      else if c < 0x10000 then
        (if surrogate c then None
         else Some [0xE0 + c div 4096, 0x80 + c div 64 mod 64, 0x80 + c mod 64])
      else if c < 0x110000 then
        Some [0xF0 + c div 262144, 0x80 + c div 4096 mod 64,
              0x80 + c div 64 mod 64, 0x80 + c mod 64]
      else None)"

fun encode_cps :: "nat list \<Rightarrow> nat list option" where
  "encode_cps [] = Some []"
| "encode_cps (c # cs) =
     (case encode_cp c of
        None \<Rightarrow> None
      | Some bs \<Rightarrow> (case encode_cps cs of None \<Rightarrow> None | Some r \<Rightarrow> Some (bs @ r)))"

definition utf8_encode :: "ustr \<Rightarrow> bytes option" where
  "utf8_encode u = map_option (map of_nat) (encode_cps u)"

definition cont :: "nat \<Rightarrow> bool" where
  "cont b \<longleftrightarrow> 0x80 \<le> b \<and> b < 0xC0"

text \<open>One code point off the front of a byte sequence, with the bytes left over.\<close>

definition decode_cp :: "nat list \<Rightarrow> (nat \<times> nat list) option" where
  "decode_cp bs =
     (case bs of
        [] \<Rightarrow> None
      | b0 # r0 \<Rightarrow>
          if b0 < 0x80 then Some (b0, r0)
          else if 0xC0 \<le> b0 \<and> b0 < 0xE0 then
            (case r0 of
               b1 # r1 \<Rightarrow>
                 let c = (b0 - 0xC0) * 64 + (b1 - 0x80)
                 in if cont b1 \<and> 0x80 \<le> c then Some (c, r1) else None
             | _ \<Rightarrow> None)
          else if 0xE0 \<le> b0 \<and> b0 < 0xF0 then
            (case r0 of
               b1 # b2 # r2 \<Rightarrow>
                 let c = (b0 - 0xE0) * 4096 + (b1 - 0x80) * 64 + (b2 - 0x80)
                 in if cont b1 \<and> cont b2 \<and> 0x800 \<le> c \<and> \<not> surrogate c
                    then Some (c, r2) else None
             | _ \<Rightarrow> None)
          else if 0xF0 \<le> b0 \<and> b0 < 0xF8 then
            (case r0 of
               b1 # b2 # b3 # r3 \<Rightarrow>
                 let c = (b0 - 0xF0) * 262144 + (b1 - 0x80) * 4096
                         + (b2 - 0x80) * 64 + (b3 - 0x80)
                 in if cont b1 \<and> cont b2 \<and> cont b3 \<and> 0x10000 \<le> c \<and> c < 0x110000
                    then Some (c, r3) else None
             | _ \<Rightarrow> None)
          else None)"

function decode_cps :: "nat list \<Rightarrow> nat list option" where
  "decode_cps bs =
     (if bs = [] then Some []
      else case decode_cp bs of
             None \<Rightarrow> None
           | Some (c, r) \<Rightarrow> map_option ((#) c) (decode_cps r))"
  by pat_completeness auto
termination
  by (relation "measure length")
     (auto simp: decode_cp_def Let_def split: list.splits if_splits)

declare decode_cps.simps [simp del]

definition utf8_decode :: "bytes \<Rightarrow> ustr option" where
  "utf8_decode b = decode_cps (map unat b)"

section \<open>The collaborators that are not part of the module\<close>

text \<open>
  The structured-text codec behind \<open>send_json\<close> and \<open>jsonapi.loads\<close>
  (\<open>volttron.platform.jsonapi\<close>, not among the sources) is taken as a parameter of the
  methods that use it: \<open>dumps\<close> gives the text of a value (\<open>None\<close> when the value is
  not serializable), \<open>loads\<close> parses a text (\<open>None\<close> when it is not valid). The spec
  asks of it that it round-trips mappings, sequences, strings, numbers, booleans and null.
\<close>

record jsonapi =
  dumps :: "pyval \<Rightarrow> ustr option"
  loads :: "ustr \<Rightarrow> pyval option"

text \<open>
  Modelled from the spec: the \<open>Headers\<close> class of \<open>volttron.platform.messaging.headers\<close>
  is missing from the sources. The spec gives it as an ordered mapping from case-preserved
  string keys to values, with case-insensitive lookup, an empty sequence as the value of an
  absent key, and conversion from and to a plain mapping. Here it is the list of its
  entries; two keys are the same when their lower-case forms are (ASCII letters), and
  storing under a key that is there already replaces the value in place and keeps the
  spelling of the key. \<open>headers_dict\<close> is the \<open>dict\<close> property.
\<close>

type_synonym headers = "(ustr \<times> pyval) list"

definition lower :: "ustr \<Rightarrow> ustr" where
  "lower u = map (\<lambda>c. if 65 \<le> c \<and> c \<le> 90 then c + 32 else c) u"

definition same_key :: "ustr \<Rightarrow> ustr \<Rightarrow> bool" where
  "same_key k k' \<longleftrightarrow> lower k = lower k'"

definition has_key :: "headers \<Rightarrow> ustr \<Rightarrow> bool" where
  "has_key h k \<longleftrightarrow> list_ex (\<lambda>kv. same_key (fst kv) k) h"

definition setitem :: "headers \<Rightarrow> ustr \<Rightarrow> pyval \<Rightarrow> headers" where
  "setitem h k v =
     (if has_key h k then map (\<lambda>kv. if same_key (fst kv) k then (fst kv, v) else kv) h
      else h @ [(k, v)])"

definition getitem :: "headers \<Rightarrow> ustr \<Rightarrow> pyval" where
  "getitem h k =
     (case find (\<lambda>kv. same_key (fst kv) k) h of
        Some kv \<Rightarrow> snd kv
      | None \<Rightarrow> PList [])"

definition Headers :: "dict \<Rightarrow> headers" where
  "Headers d = foldl (\<lambda>h kv. setitem h (fst kv) (snd kv)) [] d"

definition headers_dict :: "headers \<Rightarrow> dict" where
  "headers_dict h = h"

text \<open>
  What a caller may give as \<open>headers\<close>: nothing (\<open>None\<close>), a plain mapping, or a
  \<open>Headers\<close> object. \<open>truthy\<close> is Python's truth value of it.
\<close>

datatype headers_arg = NoHeaders | Mapping dict | Instance headers

fun truthy :: "headers_arg \<Rightarrow> bool" where
  "truthy NoHeaders = False"
| "truthy (Mapping d) = (d \<noteq> [])"
| "truthy (Instance h) = (h \<noteq> [])"

fun Headers_of :: "headers_arg \<Rightarrow> headers" where
  "Headers_of NoHeaders = []"
| "Headers_of (Mapping d) = Headers d"
| "Headers_of (Instance h) = h"

section \<open>The transport socket\<close>

text \<open>
  The \<open>zmq.Socket\<close> underneath, as far as the messaging methods use it: the frames handed
  to the transport so far (\<open>outbox\<close>, oldest first), the frames waiting to be received
  (\<open>inbox\<close>), and the \<open>rcvmore\<close> option, which is the mark of the frame received last.
  Every operation returns its result or error together with the socket afterwards, so
  that the frames sent before an error stay visible. Sending never fails in this model;
  receiving from an empty inbox is \<open>Again\<close> (the call would block or raise \<open>zmq.Again\<close>).
\<close>

record socket =
  outbox :: "frame list"
  inbox :: "frame list"
  rcvmore :: bool

type_synonym 'a result = "(error + 'a) \<times> socket"

definition SNDMORE :: int where
  "SNDMORE = 2"

text \<open>
  \<open>send\<close> hands one frame to the transport, marked "more" when \<open>flags\<close> has the
  \<open>SNDMORE\<close> bit. \<open>send_string\<close> is the override of the module (it only makes
  \<open>copy\<close> default to true) with the encoding left at UTF-8; \<open>send_json\<close> sends the
  UTF-8 bytes of the text of a value.
\<close>

definition send :: "bytes \<Rightarrow> int \<Rightarrow> socket \<Rightarrow> unit result" where
  "send data flags s = (Inr (), s\<lparr>outbox := outbox s @ [(data, flags AND SNDMORE \<noteq> 0)]\<rparr>)"

definition send_string :: "ustr \<Rightarrow> int \<Rightarrow> socket \<Rightarrow> unit result" where
  "send_string u flags s =
     (case utf8_encode u of
        None \<Rightarrow> (Inl UnicodeEncodeError, s)
      | Some b \<Rightarrow> send b flags s)"

definition send_json :: "jsonapi \<Rightarrow> pyval \<Rightarrow> int \<Rightarrow> socket \<Rightarrow> unit result" where
  "send_json J obj flags s =
     (case dumps J obj of
        None \<Rightarrow> (Inl TypeError, s)
      | Some text \<Rightarrow>
          (case utf8_encode text of
             None \<Rightarrow> (Inl UnicodeEncodeError, s)
           | Some b \<Rightarrow> send b flags s))"

fun as_bytes :: "pyval \<Rightarrow> bytes option" where
  "as_bytes (PBytes b) = Some b"
| "as_bytes _ = None"

fun send_parts :: "bytes list \<Rightarrow> int \<Rightarrow> socket \<Rightarrow> socket" where
  "send_parts [] flags s = s"
| "send_parts [b] flags s = snd (send b flags s)"
| "send_parts (b # bs) flags s = send_parts bs flags (snd (send b (SNDMORE OR flags) s))"

text \<open>
  \<open>send_multipart\<close> checks that every part is a buffer before it sends the first one, sends
  all parts but the last with \<open>SNDMORE\<close> added, and indexes the last part (an
  \<open>IndexError\<close> when there is none).
\<close>

definition send_multipart :: "pyval list \<Rightarrow> int \<Rightarrow> socket \<Rightarrow> unit result" where
  "send_multipart msg_parts flags s =
     (case those (map as_bytes msg_parts) of
        None \<Rightarrow> (Inl TypeError, s)
      | Some bs \<Rightarrow> if bs = [] then (Inl IndexError, s) else (Inr (), send_parts bs flags s))"

definition recv :: "int \<Rightarrow> socket \<Rightarrow> bytes result" where
  "recv flags s =
     (case inbox s of
        [] \<Rightarrow> (Inl Again, s)
      | f # q \<Rightarrow> (Inr (fst f), s\<lparr>inbox := q, rcvmore := snd f\<rparr>))"

definition recv_string :: "int \<Rightarrow> socket \<Rightarrow> ustr result" where
  "recv_string flags s =
     (case recv flags s of
        (Inl e, s') \<Rightarrow> (Inl e, s')
      | (Inr b, s') \<Rightarrow>
          (case utf8_decode b of
             None \<Rightarrow> (Inl UnicodeDecodeError, s')
           | Some u \<Rightarrow> (Inr u, s')))"

text \<open>
  The loop of \<open>recv_multipart\<close> (\<open>parts = [recv()]; while rcvmore: parts.append(recv())\<close>)
  over the waiting frames: the frames up to the first one not marked "more", and the
  frames left; \<open>None\<close> when the inbox runs out first.
\<close>

fun take_message :: "frame list \<Rightarrow> (bytes list \<times> frame list) option" where
  "take_message [] = None"
| "take_message (f # q) =
     (if snd f then
        (case take_message q of
           None \<Rightarrow> None
         | Some (parts, rest) \<Rightarrow> Some (fst f # parts, rest))
      else Some ([fst f], q))"

definition recv_multipart :: "int \<Rightarrow> socket \<Rightarrow> bytes list result" where
  "recv_multipart flags s =
     (case take_message (inbox s) of
        None \<Rightarrow> (Inl Again, s\<lparr>inbox := [], rcvmore := (inbox s \<noteq> [] \<or> rcvmore s)\<rparr>)
      | Some (parts, rest) \<Rightarrow> (Inr parts, s\<lparr>inbox := rest, rcvmore := False\<rparr>))"

section \<open>The messaging methods of \<open>Socket\<close>\<close>

text \<open>
  \<open>recv_message\<close>: the topic frame; the headers frame if one follows, else the text
  \<open>''\<close>; the mapping parsed from a text that is not empty, else \<open>{}\<close>; the remaining
  frames if any follow; and last \<open>Headers(headers)\<close>, where a parsed value that is not a
  mapping is taken to raise \<open>TypeError\<close> (the spec builds a \<open>Headers\<close> from a mapping
  only).
\<close>

definition recv_message ::
  "jsonapi \<Rightarrow> int \<Rightarrow> socket \<Rightarrow> (ustr \<times> headers \<times> bytes list) result" where
  "recv_message J flags s =
     (case recv_string flags s of
        (Inl e, s1) \<Rightarrow> (Inl e, s1)
      | (Inr topic, s1) \<Rightarrow>
          (case (if rcvmore s1 then recv_string flags s1 else (Inr [], s1)) of
             (Inl e, s2) \<Rightarrow> (Inl e, s2)
           | (Inr text, s2) \<Rightarrow>
               (case (if text \<noteq> [] then loads J text else Some (PDict [])) of
                  None \<Rightarrow> (Inl JSONDecodeError, s2)
                | Some hv \<Rightarrow>
                    (case (if rcvmore s2 then recv_multipart flags s2 else (Inr [], s2)) of
                       (Inl e, s3) \<Rightarrow> (Inl e, s3)
                     | (Inr message, s3) \<Rightarrow>
                         (case hv of
                            PDict d \<Rightarrow> (Inr (topic, Headers d, message), s3)
                          | _ \<Rightarrow> (Inl TypeError, s3))))))"

text \<open>
  \<open>recv_message_ex\<close>: \<open>list(zip(headers['Content-Type'], message))\<close> on what
  \<open>recv_message\<close> returned.
\<close>

definition Content_Type :: ustr where
  "Content_Type = str ''Content-Type''"

definition recv_message_ex ::
  "jsonapi \<Rightarrow> int \<Rightarrow> socket \<Rightarrow> (ustr \<times> headers \<times> (pyval \<times> bytes) list) result" where
  "recv_message_ex J flags s =
     (case recv_message J flags s of
        (Inl e, s') \<Rightarrow> (Inl e, s')
      | (Inr (topic, headers, message), s') \<Rightarrow>
          (case py_iter (getitem headers Content_Type) of
             None \<Rightarrow> (Inl TypeError, s')
           | Some types \<Rightarrow> (Inr (topic, headers, zip types message), s')))"

text \<open>
  The keyword arguments of a call are the list of their names and values.
  \<open>kwargs.pop('flags', 0)\<close> takes \<open>flags\<close> out; anything left is refused.
\<close>

definition send_message ::
  "jsonapi \<Rightarrow> ustr \<Rightarrow> headers_arg \<Rightarrow> pyval list \<Rightarrow> (string \<times> int) list \<Rightarrow> socket
     \<Rightarrow> unit result" where
  "send_message J topic headers msg_parts kwargs s =
     (let flags = (case map_of kwargs ''flags'' of Some f \<Rightarrow> f | None \<Rightarrow> 0);
          kwargs = filter (\<lambda>kv. fst kv \<noteq> ''flags'') kwargs
      in if kwargs \<noteq> [] then (Inl TypeError, s)
         else
           let headers = (case headers of
                            Instance h \<Rightarrow> h
                          | _ \<Rightarrow> if truthy headers then Headers_of headers else Headers [])
           in case send_string topic (flags OR SNDMORE) s of
                (Inl e, s1) \<Rightarrow> (Inl e, s1)
              | (Inr _, s1) \<Rightarrow>
                  (case send_json J (PDict (headers_dict headers))
                          (flags OR (if msg_parts \<noteq> [] then SNDMORE else 0)) s1 of
                     (Inl e, s2) \<Rightarrow> (Inl e, s2)
                   | (Inr _, s2) \<Rightarrow>
                       if msg_parts \<noteq> [] then send_multipart msg_parts flags s2
                       else (Inr (), s2)))"

text \<open>
  \<open>headers['Content-Type'], msg_parts = list(zip(*msg_tuples))\<close>: the zip must give
  exactly two columns, or the unpacking raises \<open>ValueError\<close>; an argument of \<open>zip\<close> that
  is not iterable raises \<open>TypeError\<close>.
\<close>

definition send_message_ex ::
  "jsonapi \<Rightarrow> ustr \<Rightarrow> headers_arg \<Rightarrow> pyval list \<Rightarrow> (string \<times> int) list \<Rightarrow> socket
     \<Rightarrow> unit result" where
  "send_message_ex J topic headers msg_tuples kwargs s =
     (let headers = (if truthy headers then Headers_of headers else Headers [])
      in case those (map py_iter msg_tuples) of
           None \<Rightarrow> (Inl TypeError, s)
         | Some rows \<Rightarrow>
             (case py_zip rows of
                [types, msg_parts] \<Rightarrow>
                  send_message J topic
                    (Mapping (headers_dict (setitem headers Content_Type (PList types))))
                    msg_parts kwargs s
              | _ \<Rightarrow> (Inl ValueError, s)))"

section \<open>A JSON codec for the structured-text parameter\<close>

text \<open>
  An instance of the codec to run the methods on concrete messages: \<open>json_text\<close> writes
  the compact form (separators \<open>,\<close> and \<open>:\<close>, no spaces), \<open>json_parse\<close> reads JSON
  with whitespace, string escapes and integers; a number with a fraction or an exponent
  is outside the value type and refused. Code points are written in decimal: 34 is the
  double quote, 92 the backslash, 123 and 125 the braces, 91 and 93 the brackets, 44 the
  comma, 58 the colon.
\<close>

definition ws :: "nat \<Rightarrow> bool" where
  "ws c \<longleftrightarrow> c = 32 \<or> c = 9 \<or> c = 10 \<or> c = 13"

definition skip_ws :: "ustr \<Rightarrow> ustr" where
  "skip_ws u = dropWhile ws u"

fun dec_digits :: "nat \<Rightarrow> ustr" where
  "dec_digits n = (if n < 10 then [48 + n] else dec_digits (n div 10) @ [48 + n mod 10])"

declare dec_digits.simps [simp del]

definition hex_digit :: "nat \<Rightarrow> nat" where
  "hex_digit d = (if d < 10 then 48 + d else 87 + d)"

definition escape_cp :: "nat \<Rightarrow> ustr" where
  "escape_cp c =
     (if c = 34 then [92, 34]
      else if c = 92 then [92, 92]
      else if c = 10 then [92, 110]
      else if c = 13 then [92, 114]
      else if c = 9 then [92, 116]
      else if c < 32 then [92, 117, 48, 48, hex_digit (c div 16), hex_digit (c mod 16)]
      else [c])"

definition quote :: "ustr \<Rightarrow> ustr" where
  "quote u = [34] @ concat (map escape_cp u) @ [34]"

fun join :: "ustr \<Rightarrow> ustr list \<Rightarrow> ustr" where
  "join sep [] = []"
| "join sep [u] = u"
| "join sep (u # us) = u @ sep @ join sep us"

fun json_text :: "pyval \<Rightarrow> ustr option" where
  "json_text PNone = Some (str ''null'')"
| "json_text (PBool b) = Some (if b then str ''true'' else str ''false'')"
| "json_text (PInt i) = Some (if i < 0 then 45 # dec_digits (nat (- i)) else dec_digits (nat i))"
| "json_text (PStr u) = Some (quote u)"
| "json_text (PBytes b) = None"
| "json_text (PList xs) =
     (case those (map json_text xs) of
        None \<Rightarrow> None
      | Some ts \<Rightarrow> Some ([91] @ join [44] ts @ [93]))"
| "json_text (PDict kvs) =
     (case those (map (\<lambda>kv. map_option (\<lambda>t. quote (fst kv) @ [58] @ t) (json_text (snd kv))) kvs) of
        None \<Rightarrow> None
      | Some ts \<Rightarrow> Some ([123] @ join [44] ts @ [125]))"

definition hex_val :: "nat \<Rightarrow> nat option" where
  "hex_val c =
     (if 48 \<le> c \<and> c \<le> 57 then Some (c - 48)
      else if 97 \<le> c \<and> c \<le> 102 then Some (c - 87)
      else if 65 \<le> c \<and> c \<le> 70 then Some (c - 55)
      else None)"

definition hex4 :: "ustr \<Rightarrow> (nat \<times> ustr) option" where
  "hex4 u =
     (case u of
        a # b # c # d # r \<Rightarrow>
          (case (hex_val a, hex_val b, hex_val c, hex_val d) of
             (Some x, Some y, Some z, Some w) \<Rightarrow> Some (((x * 16 + y) * 16 + z) * 16 + w, r)
           | _ \<Rightarrow> None)
      | _ \<Rightarrow> None)"

definition unescape :: "ustr \<Rightarrow> (nat \<times> ustr) option" where
  "unescape u =
     (case u of
        [] \<Rightarrow> None
      | e # r \<Rightarrow>
          if e = 34 \<or> e = 92 \<or> e = 47 then Some (e, r)
          else if e = 98 then Some (8, r)
          else if e = 102 then Some (12, r)
          else if e = 110 then Some (10, r)
          else if e = 114 then Some (13, r)
          else if e = 116 then Some (9, r)
          else if e = 117 then hex4 r
          else None)"

function parse_chars :: "ustr \<Rightarrow> (ustr \<times> ustr) option" where
  "parse_chars u =
     (case u of
        [] \<Rightarrow> None
      | c # r \<Rightarrow>
          if c = 34 then Some ([], r)
          else if c = 92 then
            (case unescape r of
               None \<Rightarrow> None
             | Some (x, r') \<Rightarrow> map_option (\<lambda>p. (x # fst p, snd p)) (parse_chars r'))
          else if c < 32 then None
          else map_option (\<lambda>p. (c # fst p, snd p)) (parse_chars r))"
  by pat_completeness auto
termination
  by (relation "measure length")
     (auto simp: unescape_def hex4_def split: list.splits if_splits option.splits)

declare parse_chars.simps [simp del]

definition digit :: "nat \<Rightarrow> bool" where
  "digit c \<longleftrightarrow> 48 \<le> c \<and> c \<le> 57"

definition parse_nat :: "ustr \<Rightarrow> (nat \<times> ustr) option" where
  "parse_nat u =
     (let ds = takeWhile digit u; r = dropWhile digit u
      in if ds = [] \<or> (hd ds = 48 \<and> length ds > 1) then None
         else if r \<noteq> [] \<and> (hd r = 46 \<or> hd r = 101 \<or> hd r = 69) then None
         else Some (foldl (\<lambda>n d. 10 * n + (d - 48)) 0 ds, r))"

definition parse_int :: "ustr \<Rightarrow> (int \<times> ustr) option" where
  "parse_int u =
     (case u of
        [] \<Rightarrow> None
      | c # r \<Rightarrow>
          if c = 45 then map_option (\<lambda>p. (- int (fst p), snd p)) (parse_nat r)
          else map_option (\<lambda>p. (int (fst p), snd p)) (parse_nat u))"

definition literal :: "ustr \<Rightarrow> ustr \<Rightarrow> ustr option" where
  "literal w u = (if take (length w) u = w then Some (drop (length w) u) else None)"

fun parse_value :: "nat \<Rightarrow> ustr \<Rightarrow> (pyval \<times> ustr) option"
  and parse_items :: "nat \<Rightarrow> ustr \<Rightarrow> (pyval list \<times> ustr) option"
  and parse_members :: "nat \<Rightarrow> ustr \<Rightarrow> (dict \<times> ustr) option" where
  "parse_value 0 u = None"
| "parse_value (Suc n) u =
     (case skip_ws u of
        [] \<Rightarrow> None
      | c # r \<Rightarrow>
          if c = 123 then
            (case skip_ws r of
               [] \<Rightarrow> None
             | c' # r' \<Rightarrow>
                 if c' = 125 then Some (PDict [], r')
                 else map_option (\<lambda>p. (PDict (fst p), snd p)) (parse_members n r))
          else if c = 91 then
            (case skip_ws r of
               [] \<Rightarrow> None
             | c' # r' \<Rightarrow>
                 if c' = 93 then Some (PList [], r')
                 else map_option (\<lambda>p. (PList (fst p), snd p)) (parse_items n r))
          else if c = 34 then map_option (\<lambda>p. (PStr (fst p), snd p)) (parse_chars r)
          else if c = 110 then map_option (\<lambda>r'. (PNone, r')) (literal (str ''null'') (c # r))
          else if c = 116 then map_option (\<lambda>r'. (PBool True, r')) (literal (str ''true'') (c # r))
          else if c = 102 then map_option (\<lambda>r'. (PBool False, r')) (literal (str ''false'') (c # r))
          else map_option (\<lambda>p. (PInt (fst p), snd p)) (parse_int (c # r)))"
| "parse_items 0 u = None"
| "parse_items (Suc n) u =
     (case parse_value n u of
        None \<Rightarrow> None
      | Some (v, r) \<Rightarrow>
          (case skip_ws r of
             [] \<Rightarrow> None
           | c # r' \<Rightarrow>
               if c = 44 then map_option (\<lambda>p. (v # fst p, snd p)) (parse_items n r')
               else if c = 93 then Some ([v], r')
               else None))"
| "parse_members 0 u = None"
| "parse_members (Suc n) u =
     (case skip_ws u of
        [] \<Rightarrow> None
      | q # r \<Rightarrow>
          if q \<noteq> 34 then None
          else
            (case parse_chars r of
               None \<Rightarrow> None
             | Some (k, r1) \<Rightarrow>
                 (case skip_ws r1 of
                    [] \<Rightarrow> None
                  | c1 # r2 \<Rightarrow>
                      if c1 \<noteq> 58 then None
                      else
                        (case parse_value n r2 of
                           None \<Rightarrow> None
                         | Some (v, r3) \<Rightarrow>
                             (case skip_ws r3 of
                                [] \<Rightarrow> None
                              | c3 # r4 \<Rightarrow>
                                  if c3 = 44 then
                                    map_option (\<lambda>p. ((k, v) # fst p, snd p)) (parse_members n r4)
                                  else if c3 = 125 then Some ([(k, v)], r4)
                                  else None)))))"

definition json_parse :: "ustr \<Rightarrow> pyval option" where
  "json_parse u =
     (case parse_value (Suc (length u)) u of
        None \<Rightarrow> None
      | Some (v, r) \<Rightarrow> if skip_ws r = [] then Some v else None)"

definition json :: jsonapi where
  "json = \<lparr>dumps = json_text, loads = json_parse\<rparr>"


section \<open>Notions for the statements\<close>

text \<open>The keys of a \<open>Headers\<close> object differ pairwise, also when case is ignored.\<close>

definition keys_distinct :: "headers \<Rightarrow> bool" where
  "keys_distinct h \<longleftrightarrow> distinct (map (\<lambda>kv. lower (fst kv)) h)"

text \<open>
  The \<open>Headers\<close> object that \<open>send_message\<close> works with: the caller's own when it is
  one, and otherwise \<open>Headers(headers)\<close>, or \<open>Headers()\<close> for a false value.
\<close>

definition chosen_headers :: "headers_arg \<Rightarrow> headers" where
  "chosen_headers headers =
     (case headers of
        Instance h \<Rightarrow> h
      | _ \<Rightarrow> if truthy headers then Headers_of headers else Headers [])"

text \<open>The frames of the parts of a message, the last one marked as \<open>m\<close> says.\<close>

definition part_frames :: "bytes list \<Rightarrow> bool \<Rightarrow> frame list" where
  "part_frames P m = (if P = [] then [] else map (\<lambda>b. (b, True)) (butlast P) @ [(last P, m)])"

text \<open>
  What the round trips ask of the structured-text codec, at one mapping: its text is
  there, is not empty, encodes as UTF-8, and parses back to the mapping.
\<close>

definition codec_round_trips :: "jsonapi \<Rightarrow> dict \<Rightarrow> bool" where
  "codec_round_trips J d \<longleftrightarrow>
     (case dumps J (PDict d) of
        None \<Rightarrow> False
      | Some jtext \<Rightarrow>
          jtext \<noteq> [] \<and> utf8_encode jtext \<noteq> None \<and> loads J jtext = Some (PDict d))"

text \<open>The tuples of a list of (content type, bytes) pairs, and what comes back paired.\<close>

definition tuples_of :: "(ustr \<times> bytes) list \<Rightarrow> pyval list" where
  "tuples_of L = map (\<lambda>p. PList [PStr (fst p), PBytes (snd p)]) L"

definition types_of :: "(ustr \<times> bytes) list \<Rightarrow> pyval list" where
  "types_of L = map (\<lambda>p. PStr (fst p)) L"

definition pairs_of :: "(ustr \<times> bytes) list \<Rightarrow> (pyval \<times> bytes) list" where
  "pairs_of L = map (\<lambda>p. (PStr (fst p), snd p)) L"

section \<open>Encoding and decoding a string give it back\<close>

lemma split2: "(x::nat) div 64 * (64 * k) + x mod 64 * k = x * k"
proof -
  have "x div 64 * (64 * k) + x mod 64 * k = (x div 64 * 64 + x mod 64) * k"
    by (simp only: add_mult_distrib mult.assoc)
  also have "\<dots> = x * k" by (simp only: div_mult_mod_eq)
  finally show ?thesis .
qed

lemma split3: "(c::nat) div 4096 * 4096 + c div 64 mod 64 * 64 + c mod 64 = c"
proof -
  have a: "c div 4096 = c div 64 div 64"
    by (simp add: div_mult2_eq [symmetric])
  have "c div 4096 * 4096 + c div 64 mod 64 * 64 = c div 64 * 64"
    unfolding a using split2 [of "c div 64" 64] by simp
  then show ?thesis by simp
qed

lemma split4: "(c::nat) div 262144 * 262144 + c div 4096 mod 64 * 4096 + c div 64 mod 64 * 64 + c mod 64 = c"
proof -
  have a: "c div 262144 = c div 4096 div 64"
    by (simp add: div_mult2_eq [symmetric])
  have "c div 262144 * 262144 + c div 4096 mod 64 * 4096 = c div 4096 * 4096"
    unfolding a using split2 [of "c div 4096" 4096] by simp
  then show ?thesis using split3 [of c] by simp
qed


lemma div_bound: "(c::nat) < n * k \<Longrightarrow> c div k < n"
  by (rule less_mult_imp_div_less)

lemma encode_cp_decode2:
  assumes "0x80 \<le> c" "c < 0x800"
  shows "decode_cp ([0xC0 + c div 64, 0x80 + c mod 64] @ r) = Some (c, r)"
proof -
  have 1: "c div 64 < 32" using assms by (intro div_bound) simp
  have 2: "c mod 64 < 64" by simp
  have 3: "c div 64 * 64 + c mod 64 = c" by simp
  show ?thesis using assms 1 2 3 by (simp add: decode_cp_def cont_def)
qed

lemma encode_cp_decode3:
  assumes "0x800 \<le> c" "c < 0x10000" "\<not> surrogate c"
  shows "decode_cp ([0xE0 + c div 4096, 0x80 + c div 64 mod 64, 0x80 + c mod 64] @ r) = Some (c, r)"
proof -
  have 1: "c div 4096 < 16" using assms by (intro div_bound) simp
  have 2: "c mod 64 < 64" "c div 64 mod 64 < 64" by simp_all
  show ?thesis using assms 1 2 split3 [of c] by (simp add: decode_cp_def cont_def)
qed

lemma encode_cp_decode4:
  assumes "0x10000 \<le> c" "c < 0x110000"
  shows "decode_cp ([0xF0 + c div 262144, 0x80 + c div 4096 mod 64,
              0x80 + c div 64 mod 64, 0x80 + c mod 64] @ r) = Some (c, r)"
proof -
  have 1: "c div 262144 < 8" using assms by (intro div_bound) simp
  have 2: "c mod 64 < 64" "c div 64 mod 64 < 64" "c div 4096 mod 64 < 64" by simp_all
  show ?thesis using assms 1 2 split4 [of c] by (simp add: decode_cp_def cont_def)
qed


lemma encode_cp_decode:
  assumes "encode_cp c = Some bs"
  shows "decode_cp (bs @ r) = Some (c, r)"
proof -
  consider (a) "c < 0x80" | (b) "0x80 \<le> c" "c < 0x800"
    | (c) "0x800 \<le> c" "c < 0x10000" "\<not> surrogate c"
    | (d) "0x10000 \<le> c" "c < 0x110000"
    using assms by (auto simp: encode_cp_def split: if_splits)
  then show ?thesis
  proof cases
    case a
    with assms show ?thesis by (auto simp: encode_cp_def decode_cp_def)
  next
    case b
    with assms have "bs = [0xC0 + c div 64, 0x80 + c mod 64]"
      by (auto simp: encode_cp_def)
    with encode_cp_decode2 [OF b, of r] show ?thesis by (simp only:)
  next
    case c
    with assms have "bs = [0xE0 + c div 4096, 0x80 + c div 64 mod 64, 0x80 + c mod 64]"
      by (auto simp: encode_cp_def)
    with encode_cp_decode3 [OF c, of r] show ?thesis by (simp only:)
  next
    case d
    with assms have "bs = [0xF0 + c div 262144, 0x80 + c div 4096 mod 64,
              0x80 + c div 64 mod 64, 0x80 + c mod 64]"
      by (auto simp: encode_cp_def)
    with encode_cp_decode4 [OF d, of r] show ?thesis by (simp only:)
  qed
qed

lemma encode_cp_bytes:
  assumes "encode_cp c = Some bs" "b \<in> set bs"
  shows "b < 256"
proof -
  have m: "c mod 64 < 64" "c div 64 mod 64 < 64" "c div 4096 mod 64 < 64" by simp_all
  consider (a) "c < 0x80" | (b) "0x80 \<le> c" "c < 0x800"
    | (c) "0x800 \<le> c" "c < 0x10000" "\<not> surrogate c"
    | (d) "0x10000 \<le> c" "c < 0x110000"
    using assms by (auto simp: encode_cp_def split: if_splits)
  then show ?thesis
  proof cases
    case a
    with assms show ?thesis by (auto simp: encode_cp_def)
  next
    case b
    then have "c div 64 < 32" by (intro div_bound) simp
    with assms b m show ?thesis by (auto simp: encode_cp_def)
  next
    case c
    then have "c div 4096 < 16" by (intro div_bound) simp
    with assms c m show ?thesis by (auto simp: encode_cp_def)
  next
    case d
    then have "c div 262144 < 8" by (intro div_bound) simp
    with assms d m show ?thesis by (auto simp: encode_cp_def)
  qed
qed

lemma encode_cp_nonempty: "encode_cp c = Some bs \<Longrightarrow> bs \<noteq> []"
  by (auto simp: encode_cp_def split: if_splits)

lemma encode_cps_decode: "encode_cps cs = Some bs \<Longrightarrow> decode_cps bs = Some cs"
proof (induction cs arbitrary: bs)
  case Nil
  then show ?case by (simp add: decode_cps.simps)
next
  case (Cons c cs)
  then obtain b1 b2 where e: "encode_cp c = Some b1" "encode_cps cs = Some b2" "bs = b1 @ b2"
    by (auto split: option.splits)
  from e(1) have "b1 \<noteq> []" by (rule encode_cp_nonempty)
  then have "bs \<noteq> []" using e(3) by simp
  moreover have "decode_cp bs = Some (c, b2)" using e(1,3) by (simp add: encode_cp_decode)
  moreover have "decode_cps b2 = Some cs" using Cons.IH e(2) by simp
  ultimately show ?case by (subst decode_cps.simps) simp
qed

lemma encode_cps_bytes: "encode_cps cs = Some bs \<Longrightarrow> b \<in> set bs \<Longrightarrow> b < 256"
proof (induction cs arbitrary: bs)
  case Nil
  then show ?case by simp
next
  case (Cons c cs)
  then obtain b1 b2 where e: "encode_cp c = Some b1" "encode_cps cs = Some b2" "bs = b1 @ b2"
    by (auto split: option.splits)
  with Cons.prems(2) have "b \<in> set b1 \<or> b \<in> set b2" by simp
  then show ?case using e Cons.IH encode_cp_bytes by blast
qed

lemma unat_of_nat_byte: "n < 256 \<Longrightarrow> unat (of_nat n :: byte) = n"
  by (simp add: unat_of_nat)

theorem utf8_roundtrip:
  assumes "utf8_encode u = Some b"
  shows "utf8_decode b = Some u"
proof -
  from assms obtain ns where ns: "encode_cps u = Some ns" "b = map of_nat ns"
    by (auto simp: utf8_encode_def)
  have "map unat b = ns"
    unfolding ns(2) using encode_cps_bytes [OF ns(1)]
    by (simp add: map_idI unat_of_nat_byte)
  then show ?thesis
    using encode_cps_decode [OF ns(1)] by (simp add: utf8_decode_def)
qed

lemma decode_cps_empty: "decode_cps bs = Some [] \<longleftrightarrow> bs = []"
  by (subst decode_cps.simps) (auto split: option.splits)

lemma utf8_decode_empty: "utf8_decode b = Some [] \<longleftrightarrow> b = []"
  by (simp add: utf8_decode_def decode_cps_empty)

lemma encode_cps_empty: "encode_cps cs = Some [] \<longleftrightarrow> cs = []"
  by (cases cs) (auto split: option.splits dest: encode_cp_nonempty)

lemma utf8_encode_empty: "utf8_encode u = Some [] \<longleftrightarrow> u = []"
  by (auto simp: utf8_encode_def encode_cps_empty)

section \<open>Sending: keyword arguments and the empty tuple sequence\<close>

lemma py_zip_Nil: "py_zip [] = []"
  by (simp add: py_zip.simps)

text \<open>
  C3. The spec has \<open>send_message_ex\<close> with no (content-type, bytes) tuple at all split
  its input into two empty sequences and send the message. The code does not: the zip of
  no rows is the empty list, unpacking it into two targets raises \<open>ValueError\<close>, and no
  frame is sent, whatever the topic, headers and keyword arguments.
\<close>

theorem send_message_ex_no_tuples:
  "send_message_ex J topic headers [] kwargs s = (Inl ValueError, s)"
  by (simp add: send_message_ex_def py_zip_Nil)

lemma send_message_kwargs:
  assumes "\<exists>kv \<in> set kwargs. fst kv \<noteq> ''flags''"
  shows "send_message J topic headers msg_parts kwargs s = (Inl TypeError, s)"
proof -
  from assms have "filter (\<lambda>kv. fst kv \<noteq> ''flags'') kwargs \<noteq> []"
    by (simp add: filter_empty_conv)
  then show ?thesis
    by (simp add: send_message_def Let_def)
qed

text \<open>
  C6. A call of \<open>send_message\<close> with any keyword other than \<open>flags\<close> raises \<open>TypeError\<close>
  and leaves the socket as it was: no frame is sent. The same holds for the call that
  \<open>send_message_ex\<close> makes once it has split its tuples; and whatever \<open>send_message_ex\<close>
  raises with such a keyword, it has sent nothing.
\<close>

theorem unknown_keyword_refused:
  assumes "\<exists>kv \<in> set kwargs. fst kv \<noteq> ''flags''"
  shows "send_message J topic headers msg_parts kwargs s = (Inl TypeError, s)
       \<and> (\<exists>e. send_message_ex J topic headers msg_tuples kwargs s = (Inl e, s))
       \<and> (\<forall>rows types parts.
             those (map py_iter msg_tuples) = Some rows \<and> py_zip rows = [types, parts]
             \<longrightarrow> send_message_ex J topic headers msg_tuples kwargs s = (Inl TypeError, s))"
proof (intro conjI allI impI)
  show "send_message J topic headers msg_parts kwargs s = (Inl TypeError, s)"
    using assms by (rule send_message_kwargs)
next
  show "\<exists>e. send_message_ex J topic headers msg_tuples kwargs s = (Inl e, s)"
    by (auto simp: send_message_ex_def Let_def send_message_kwargs [OF assms]
             split: option.splits list.splits)
next
  fix rows types parts
  assume "those (map py_iter msg_tuples) = Some rows \<and> py_zip rows = [types, parts]"
  then show "send_message_ex J topic headers msg_tuples kwargs s = (Inl TypeError, s)"
    by (simp add: send_message_ex_def Let_def send_message_kwargs [OF assms])
qed

theorem unknown_keyword_refused_witness:
  "(\<exists>kv \<in> set [(''flags'', 1), (''copy'', 0)]. fst kv \<noteq> ''flags'')
   \<and> send_message json (str ''t'') (Mapping []) [PBytes [1]] [(''flags'', 1), (''copy'', 0)]
        \<lparr>outbox = [], inbox = [], rcvmore = False\<rparr>
       = (Inl TypeError, \<lparr>outbox = [], inbox = [], rcvmore = False\<rparr>)
   \<and> send_message_ex json (str ''t'') (Mapping [])
        [PList [PStr (str ''text/plain''), PBytes [1]]] [(''flags'', 1), (''copy'', 0)]
        \<lparr>outbox = [], inbox = [], rcvmore = False\<rparr>
       = (Inl TypeError, \<lparr>outbox = [], inbox = [], rcvmore = False\<rparr>)"
proof -
  have h: "\<exists>kv \<in> set [(''flags'', 1::int), (''copy'', 0)]. fst kv \<noteq> ''flags''" by simp
  have z: "py_zip [[PStr (str ''text/plain''), PBytes [1]]] = [[PStr (str ''text/plain'')], [PBytes [1]]]"
    by (simp add: py_zip.simps)
  show ?thesis
    using h z unknown_keyword_refused [OF h, of json "str ''t''" "Mapping []" "[PBytes [1]]"
        "\<lparr>outbox = [], inbox = [], rcvmore = False\<rparr>"
        "[PList [PStr (str ''text/plain''), PBytes [1]]]"]
    by simp
qed

section \<open>Facts about Headers\<close>

lemma has_key_iff: "has_key h k \<longleftrightarrow> lower k \<in> set (map (\<lambda>kv. lower (fst kv)) h)"
  by (force simp: has_key_def same_key_def list_ex_iff)

lemma setitem_keys:
  "map (\<lambda>kv. lower (fst kv)) (setitem h k v) =
     (if has_key h k then map (\<lambda>kv. lower (fst kv)) h
      else map (\<lambda>kv. lower (fst kv)) h @ [lower k])"
  by (auto simp: setitem_def)

lemma setitem_distinct: "keys_distinct h \<Longrightarrow> keys_distinct (setitem h k v)"
  unfolding keys_distinct_def setitem_keys by (auto simp: has_key_iff)

lemma foldl_setitem_distinct:
  "keys_distinct h \<Longrightarrow> keys_distinct (foldl (\<lambda>h kv. setitem h (fst kv) (snd kv)) h d)"
  by (induction d arbitrary: h) (simp_all add: setitem_distinct)

lemma Headers_distinct: "keys_distinct (Headers d)"
  unfolding Headers_def by (rule foldl_setitem_distinct) (simp add: keys_distinct_def)

lemma foldl_setitem_fresh:
  "keys_distinct (h @ d) \<Longrightarrow> foldl (\<lambda>h kv. setitem h (fst kv) (snd kv)) h d = h @ d"
proof (induction d arbitrary: h)
  case Nil
  then show ?case by simp
next
  case (Cons kv d)
  from Cons.prems have "\<not> has_key h (fst kv)"
    by (auto simp: keys_distinct_def has_key_iff)
  then have "setitem h (fst kv) (snd kv) = h @ [kv]"
    by (simp add: setitem_def)
  moreover from Cons.prems have "keys_distinct ((h @ [kv]) @ d)" by simp
  ultimately show ?case using Cons.IH [of "h @ [kv]"] by simp
qed

lemma Headers_idem: "keys_distinct h \<Longrightarrow> Headers h = h"
  unfolding Headers_def using foldl_setitem_fresh [of "[]" h] by simp

lemma Headers_Headers: "Headers (headers_dict (Headers d)) = Headers d"
  by (simp add: headers_dict_def Headers_idem Headers_distinct)

lemma Headers_Nil: "Headers [] = []"
  by (simp add: Headers_def)

lemma find_map_upd:
  assumes "list_ex P h"
  shows "find P (map (\<lambda>kv. if P kv then (fst kv, v) else kv) h) = Some (fst (the (find P h)), v)
       \<or> \<not> (\<forall>kv. P kv \<longrightarrow> P (fst kv, v))"
  using assms by (induction h) auto

lemma find_snoc:
  "find P (xs @ [x]) = (case find P xs of Some y \<Rightarrow> Some y | None \<Rightarrow> if P x then Some x else None)"
  by (induction xs) auto

lemma getitem_setitem: "getitem (setitem h k v) k = v"
proof (cases "has_key h k")
  case True
  let ?P = "\<lambda>kv. same_key (fst kv) k"
  have "\<forall>kv. ?P kv \<longrightarrow> ?P (fst kv, v)" by simp
  with find_map_upd [of ?P h v] True
  have "find ?P (map (\<lambda>kv. if ?P kv then (fst kv, v) else kv) h) = Some (fst (the (find ?P h)), v)"
    by (simp add: has_key_def)
  with True show ?thesis by (simp add: getitem_def setitem_def)
next
  case False
  then have "find (\<lambda>kv. same_key (fst kv) k) h = None"
    by (auto simp: has_key_def list_ex_iff find_None_iff)
  with False show ?thesis
    by (simp add: getitem_def setitem_def find_snoc same_key_def)
qed

lemma getitem_absent: "\<not> has_key h k \<Longrightarrow> getitem h k = PList []"
  by (auto simp: getitem_def has_key_def list_ex_iff find_None_iff split: option.splits)
     (metis find_Some_iff nth_mem)

section \<open>The frames a message is sent as\<close>

lemma SNDMORE_set: "(flags OR SNDMORE) AND SNDMORE \<noteq> 0"
proof -
  have "bit ((flags OR SNDMORE) AND SNDMORE) 1"
    by (simp add: bit_and_iff bit_or_iff SNDMORE_def)
  then show ?thesis by auto
qed

lemma SNDMORE_or: "(SNDMORE OR flags) AND SNDMORE \<noteq> 0"
  using SNDMORE_set [of flags] by (simp add: or.commute)

lemma send_parts_outbox:
  "bs \<noteq> [] \<Longrightarrow>
   send_parts bs flags s = s\<lparr>outbox := outbox s @ part_frames bs (flags AND SNDMORE \<noteq> 0)\<rparr>"
proof (induction bs flags s rule: send_parts.induct)
  case (1 flags s)
  then show ?case by simp
next
  case (2 b flags s)
  show ?case by (simp add: send_def part_frames_def)
next
  case (3 b v va flags s)
  then show ?case by (simp add: send_def part_frames_def SNDMORE_or)
qed

lemma those_as_bytes: "those (map (as_bytes \<circ> PBytes) P) = Some P"
  by (induction P) simp_all

lemma send_multipart_bytes:
  "P \<noteq> [] \<Longrightarrow>
   send_multipart (map PBytes P) flags s =
     (Inr (), s\<lparr>outbox := outbox s @ part_frames P (flags AND SNDMORE \<noteq> 0)\<rparr>)"
  by (simp add: send_multipart_def those_as_bytes send_parts_outbox)

lemma chosen_headers_Mapping: "chosen_headers (Mapping d) = Headers d"
  by (simp add: chosen_headers_def)

lemma send_message_sends:
  assumes kw: "kwargs = [] \<and> flags = 0 \<or> kwargs = [(''flags'', flags)]"
    and t: "utf8_encode topic = Some tb"
    and h: "dumps J (PDict (headers_dict (chosen_headers headers))) = Some jtext"
           "utf8_encode jtext = Some hb"
  shows "send_message J topic headers (map PBytes P) kwargs s =
     (Inr (), s\<lparr>outbox := outbox s @ [(tb, True), (hb, P \<noteq> [] \<or> flags AND SNDMORE \<noteq> 0)]
                              @ part_frames P (flags AND SNDMORE \<noteq> 0)\<rparr>)"
proof -
  have f: "(case map_of kwargs ''flags'' of Some f \<Rightarrow> f | None \<Rightarrow> 0) = flags"
    and k: "filter (\<lambda>kv. fst kv \<noteq> ''flags'') kwargs = []"
    using kw by auto
  have hm: "((flags OR (if map PBytes P \<noteq> [] then SNDMORE else 0)) AND SNDMORE \<noteq> 0)
            = (P \<noteq> [] \<or> flags AND SNDMORE \<noteq> 0)"
    using SNDMORE_set [of flags] by simp
  show ?thesis
  proof (cases "P = []")
    case True
    then show ?thesis
      using t h hm
      by (simp add: send_message_def Let_def f k send_string_def send_json_def send_def
            chosen_headers_def [symmetric] SNDMORE_set part_frames_def)
  next
    case False
    then show ?thesis
      using t h hm
      by (simp add: send_message_def Let_def f k send_string_def send_json_def send_def
            chosen_headers_def [symmetric] SNDMORE_set send_multipart_bytes)
  qed
qed

section \<open>Frame count and marks\<close>

lemma part_frames_length: "length (part_frames P m) = length P"
  by (simp add: part_frames_def)

lemma part_frames_last: "P \<noteq> [] \<Longrightarrow> snd (last (part_frames P m)) = m"
  by (simp add: part_frames_def)

lemma part_frames_nth:
  assumes "i < length P"
  shows "part_frames P m ! i = (P ! i, if i + 1 < length P then True else m)"
proof (cases "i + 1 < length P")
  case True
  then have "i < length (butlast P)" by simp
  then have "part_frames P m ! i = (butlast P ! i, True)"
    using assms by (auto simp: part_frames_def nth_append)
  with True show ?thesis by (simp add: nth_butlast)
next
  case False
  with assms have i: "i = length P - 1" and ne: "P \<noteq> []" by auto
  then have "part_frames P m ! i = (last P, m)"
    by (simp add: part_frames_def nth_append)
  with False ne i show ?thesis by (simp add: last_conv_nth)
qed

lemma part_frames_fst: "map fst (part_frames P m) = P"
proof (cases "P = []")
  case True
  then show ?thesis by (simp add: part_frames_def)
next
  case False
  then have "map fst (part_frames P m) = butlast P @ [last P]"
    by (simp add: part_frames_def comp_def)
  with False show ?thesis by simp
qed

text \<open>
  C2 (as amended). A call of \<open>send_message\<close> with \<open>N\<close> byte parts, with no keyword but
  \<open>flags\<close> and a \<open>flags\<close> value whose \<open>SNDMORE\<close> bit is clear, a topic that encodes and
  headers that serialize, sends exactly \<open>N + 2\<close> frames: first the topic frame (the
  UTF-8 bytes of the topic), marked "more"; second the headers frame (the UTF-8 bytes of
  the headers text), marked "more" exactly when \<open>N > 0\<close>; then the parts in their order,
  each but the last marked "more"; and the last frame of the message is not marked.
  As stated, for every call, the claim fails: \<open>flags\<close> is or-ed into every frame, so with
  \<open>flags = SNDMORE\<close> and no part the headers frame, which is the last one, is marked
  "more", as the counterexample below shows.
\<close>

theorem frame_count_and_marks:
  assumes kw: "kwargs = [] \<and> flags = 0 \<or> kwargs = [(''flags'', flags)]"
    and nomore: "flags AND SNDMORE = 0"
    and t: "utf8_encode topic = Some tb"
    and h: "dumps J (PDict (headers_dict (chosen_headers headers))) = Some jtext"
           "utf8_encode jtext = Some hb"
  shows "\<exists>sent. send_message J topic headers (map PBytes P) kwargs s
                 = (Inr (), s\<lparr>outbox := outbox s @ sent\<rparr>)
          \<and> length sent = length P + 2
          \<and> map fst sent = tb # hb # P
          \<and> sent ! 0 = (tb, True)
          \<and> sent ! 1 = (hb, P \<noteq> [])
          \<and> (\<forall>i < length P. sent ! (i + 2) = (P ! i, i + 1 < length P))
          \<and> snd (sent ! 0) \<and> (snd (sent ! 1) \<longleftrightarrow> P \<noteq> []) \<and> \<not> snd (last sent)"
proof -
  define sent where "sent = (tb, True) # (hb, P \<noteq> []) # part_frames P False"
  have m: "(flags AND SNDMORE \<noteq> 0) = False" using nomore by simp
  have "send_message J topic headers (map PBytes P) kwargs s
          = (Inr (), s\<lparr>outbox := outbox s @ [(tb, True), (hb, P \<noteq> [] \<or> flags AND SNDMORE \<noteq> 0)]
                              @ part_frames P (flags AND SNDMORE \<noteq> 0)\<rparr>)"
    using kw t h by (rule send_message_sends)
  then have 1: "send_message J topic headers (map PBytes P) kwargs s
          = (Inr (), s\<lparr>outbox := outbox s @ sent\<rparr>)"
    unfolding m sent_def by simp
  have 2: "length sent = length P + 2"
    by (simp add: sent_def part_frames_length)
  have 3: "map fst sent = tb # hb # P"
    by (simp add: sent_def part_frames_fst)
  have 4: "sent ! 0 = (tb, True)" by (simp add: sent_def)
  have 5: "sent ! 1 = (hb, P \<noteq> [])" by (simp add: sent_def)
  have 6: "\<forall>i < length P. sent ! (i + 2) = (P ! i, i + 1 < length P)"
  proof (intro allI impI)
    fix i assume i: "i < length P"
    have "sent ! (i + 2) = part_frames P False ! i" by (simp add: sent_def)
    also have "\<dots> = (P ! i, i + 1 < length P)" using i by (simp add: part_frames_nth)
    finally show "sent ! (i + 2) = (P ! i, i + 1 < length P)" .
  qed
  have 7: "snd (sent ! 0)" unfolding 4 by simp
  have 8: "snd (sent ! 1) \<longleftrightarrow> P \<noteq> []" unfolding 5 by simp
  have 9: "\<not> snd (last sent)"
  proof (cases "P = []")
    case True
    then show ?thesis by (simp add: sent_def part_frames_def)
  next
    case False
    then have "part_frames P False \<noteq> []" by (simp add: part_frames_def)
    then have "last sent = last (part_frames P False)" by (simp add: sent_def)
    then show ?thesis using False by (simp add: part_frames_last)
  qed
  from 1 2 3 4 5 6 7 8 9 show ?thesis
    by (intro exI [where x = sent] conjI)
qed

lemma t_bytes: "utf8_encode (str ''t'') = Some [0x74]"
  by code_simp

lemma empty_dict_text: "json_text (PDict []) = Some [123, 125]"
  by code_simp

lemma empty_dict_bytes: "utf8_encode [123, 125] = Some [0x7B, 0x7D]"
  by code_simp

theorem more_flag_counterexample:
  "send_message json (str ''t'') (Mapping []) [] [(''flags'', 2)]
     \<lparr>outbox = [], inbox = [], rcvmore = False\<rparr>
   = (Inr (), \<lparr>outbox = [([0x74], True), ([0x7B, 0x7D], True)], inbox = [], rcvmore = False\<rparr>)"
proof -
  have "send_message json (str ''t'') (Mapping []) (map PBytes []) [(''flags'', 2)]
     \<lparr>outbox = [], inbox = [], rcvmore = False\<rparr>
    = (Inr (), \<lparr>outbox = [], inbox = [], rcvmore = False\<rparr>
        \<lparr>outbox := outbox \<lparr>outbox = [], inbox = [], rcvmore = False\<rparr>
           @ [([0x74], True), ([0x7B, 0x7D], [] \<noteq> ([] :: bytes list) \<or> (2::int) AND SNDMORE \<noteq> 0)]
           @ part_frames [] ((2::int) AND SNDMORE \<noteq> 0)\<rparr>)"
    by (rule send_message_sends [where jtext = "[123, 125]"])
       (simp_all add: t_bytes empty_dict_bytes json_def chosen_headers_def Headers_Nil
          headers_dict_def empty_dict_text)
  then show ?thesis by (simp add: part_frames_def SNDMORE_def)
qed

theorem frame_count_and_marks_witness:
  "\<exists>sent. send_message json (str ''t'') (Mapping []) (map PBytes [[1], [2, 3]]) []
              \<lparr>outbox = [], inbox = [], rcvmore = False\<rparr>
            = (Inr (), \<lparr>outbox = sent, inbox = [], rcvmore = False\<rparr>)
          \<and> length sent = 4
          \<and> map fst sent = [[0x74], [0x7B, 0x7D], [1], [2, 3]]
          \<and> sent ! 0 = ([0x74], True)
          \<and> sent ! 1 = ([0x7B, 0x7D], True)
          \<and> snd (sent ! 0) \<and> snd (sent ! 1) \<and> \<not> snd (last sent)"
proof -
  have kw: "([] :: (string \<times> int) list) = [] \<and> (0::int) = 0 \<or> [] = [(''flags'', 0::int)]" by simp
  have nm: "(0::int) AND SNDMORE = 0" by simp
  have h: "dumps json (PDict (headers_dict (chosen_headers (Mapping [])))) = Some [123, 125]"
    by (simp add: json_def chosen_headers_def Headers_Nil headers_dict_def empty_dict_text)
  from frame_count_and_marks [OF kw nm t_bytes h empty_dict_bytes, of "[[1], [2, 3]]"
        "\<lparr>outbox = [], inbox = [], rcvmore = False\<rparr>"]
  obtain sent where s: "send_message json (str ''t'') (Mapping []) (map PBytes [[1], [2, 3]]) []
              \<lparr>outbox = [], inbox = [], rcvmore = False\<rparr>
            = (Inr (), \<lparr>outbox = [], inbox = [], rcvmore = False\<rparr>
                 \<lparr>outbox := outbox \<lparr>outbox = [], inbox = [], rcvmore = False\<rparr> @ sent\<rparr>)"
    and l: "length sent = length [[1], [2, 3 :: byte]] + 2"
    and f: "map fst sent = [0x74] # [0x7B, 0x7D] # [[1], [2, 3]]"
    and a: "sent ! 0 = ([0x74], True)"
    and b: "sent ! 1 = ([0x7B, 0x7D], [[1], [2, 3 :: byte]] \<noteq> [])"
    and c: "snd (sent ! 0)" "snd (sent ! 1) \<longleftrightarrow> [[1], [2, 3 :: byte]] \<noteq> []"
           "\<not> snd (last sent)"
    by (elim exE conjE)
  from s have s': "send_message json (str ''t'') (Mapping []) (map PBytes [[1], [2, 3]]) []
              \<lparr>outbox = [], inbox = [], rcvmore = False\<rparr>
            = (Inr (), \<lparr>outbox = sent, inbox = [], rcvmore = False\<rparr>)"
    by simp
  from l have l': "length sent = 4" by simp
  from b have b': "sent ! 1 = ([0x7B, 0x7D], True)" by simp
  from c(2) have c2: "snd (sent ! 1)" by simp
  from s' l' f a b' c(1) c2 c(3) show ?thesis
    by (intro exI [where x = sent] conjI)
qed

section \<open>Receiving: what is missing, and what is malformed\<close>

lemma recv_message_topic_only:
  assumes "inbox s = (t, False) # rest" "utf8_decode t = Some topic"
  shows "recv_message J flags s = (Inr (topic, [], []), s\<lparr>inbox := rest, rcvmore := False\<rparr>)"
  using assms by (simp add: recv_message_def recv_string_def recv_def Headers_Nil)

lemma recv_message_no_parts:
  assumes "inbox s = (t, True) # (h, False) # rest" "utf8_decode t = Some topic"
    and "utf8_decode h = Some jtext"
    and "(if jtext \<noteq> [] then loads J jtext else Some (PDict [])) = Some (PDict d)"
  shows "recv_message J flags s
           = (Inr (topic, Headers d, []), s\<lparr>inbox := rest, rcvmore := False\<rparr>)"
  using assms by (simp add: recv_message_def recv_string_def recv_def)

lemma recv_message_parts:
  assumes "inbox s = (t, True) # (h, True) # q" "utf8_decode t = Some topic"
    and "utf8_decode h = Some jtext"
    and "(if jtext \<noteq> [] then loads J jtext else Some (PDict [])) = Some (PDict d)"
    and "take_message q = Some (parts, rest)"
  shows "recv_message J flags s
           = (Inr (topic, Headers d, parts), s\<lparr>inbox := rest, rcvmore := False\<rparr>)"
  using assms by (simp add: recv_message_def recv_string_def recv_def recv_multipart_def)

lemma utf8_decode_Nil: "utf8_decode [] = Some []"
  by (simp add: utf8_decode_empty)

text \<open>
  C7. Missing headers and missing parts are no errors. Once the topic frame has decoded:
  a topic frame that ends the message gives empty headers and no parts; a topic frame
  followed by an empty headers frame gives empty headers, with no parts when the headers
  frame ends the message and with the parts that follow otherwise; and a headers frame
  that ends the message gives the headers it holds and an empty parts list.
\<close>

theorem missing_headers_and_parts:
  assumes "utf8_decode t = Some topic"
  shows "(inbox s = (t, False) # rest \<longrightarrow>
            recv_message J flags s
              = (Inr (topic, [], []), s\<lparr>inbox := rest, rcvmore := False\<rparr>))
       \<and> (inbox s = (t, True) # ([], False) # rest \<longrightarrow>
            recv_message J flags s
              = (Inr (topic, [], []), s\<lparr>inbox := rest, rcvmore := False\<rparr>))
       \<and> (inbox s = (t, True) # ([], True) # q \<and> take_message q = Some (parts, rest) \<longrightarrow>
            recv_message J flags s
              = (Inr (topic, [], parts), s\<lparr>inbox := rest, rcvmore := False\<rparr>))
       \<and> (inbox s = (t, True) # (h, False) # rest \<and> utf8_decode h = Some jtext
            \<and> jtext \<noteq> [] \<and> loads J jtext = Some (PDict d) \<longrightarrow>
            recv_message J flags s
              = (Inr (topic, Headers d, []), s\<lparr>inbox := rest, rcvmore := False\<rparr>))"
proof (intro conjI impI)
  assume "inbox s = (t, False) # rest"
  then show "recv_message J flags s
      = (Inr (topic, [], []), s\<lparr>inbox := rest, rcvmore := False\<rparr>)"
    using assms by (rule recv_message_topic_only)
next
  assume "inbox s = (t, True) # ([], False) # rest"
  from recv_message_no_parts [OF this assms utf8_decode_Nil, of J "[]" flags]
  show "recv_message J flags s
      = (Inr (topic, [], []), s\<lparr>inbox := rest, rcvmore := False\<rparr>)"
    by (simp add: Headers_Nil)
next
  assume a: "inbox s = (t, True) # ([], True) # q \<and> take_message q = Some (parts, rest)"
  then have i: "inbox s = (t, True) # ([], True) # q" and p: "take_message q = Some (parts, rest)"
    by simp_all
  have "(if ([]::ustr) \<noteq> [] then loads J [] else Some (PDict [])) = Some (PDict [])" by simp
  from recv_message_parts [OF i assms utf8_decode_Nil this p, of flags]
  show "recv_message J flags s
      = (Inr (topic, [], parts), s\<lparr>inbox := rest, rcvmore := False\<rparr>)"
    by (simp add: Headers_Nil)
next
  assume a: "inbox s = (t, True) # (h, False) # rest \<and> utf8_decode h = Some jtext
            \<and> jtext \<noteq> [] \<and> loads J jtext = Some (PDict d)"
  then have "(if jtext \<noteq> [] then loads J jtext else Some (PDict [])) = Some (PDict d)" by simp
  moreover from a have "inbox s = (t, True) # (h, False) # rest" "utf8_decode h = Some jtext"
    by simp_all
  ultimately show "recv_message J flags s
      = (Inr (topic, Headers d, []), s\<lparr>inbox := rest, rcvmore := False\<rparr>)"
    using assms by (simp add: recv_message_no_parts)
qed


lemma t_decoded: "utf8_decode [0x74] = Some (str ''t'')"
  by code_simp

lemma braces_decoded: "utf8_decode [0x7B, 0x7D] = Some [123, 125]"
  by code_simp

lemma braces_parsed: "json_parse [123, 125] = Some (PDict [])"
  by code_simp

theorem missing_headers_and_parts_witness:
  "recv_message json 0 \<lparr>outbox = [], inbox = [([0x74], False)], rcvmore = False\<rparr>
     = (Inr (str ''t'', [], []), \<lparr>outbox = [], inbox = [], rcvmore = False\<rparr>)
   \<and> recv_message json 0
       \<lparr>outbox = [], inbox = [([0x74], True), ([], False)], rcvmore = False\<rparr>
     = (Inr (str ''t'', [], []), \<lparr>outbox = [], inbox = [], rcvmore = False\<rparr>)
   \<and> recv_message json 0
       \<lparr>outbox = [], inbox = [([0x74], True), ([], True), ([1], True), ([2], False)],
        rcvmore = False\<rparr>
     = (Inr (str ''t'', [], [[1], [2]]), \<lparr>outbox = [], inbox = [], rcvmore = False\<rparr>)
   \<and> recv_message json 0
       \<lparr>outbox = [], inbox = [([0x74], True), ([0x7B, 0x7D], False)], rcvmore = False\<rparr>
     = (Inr (str ''t'', Headers [], []), \<lparr>outbox = [], inbox = [], rcvmore = False\<rparr>)"
proof -
  note th = missing_headers_and_parts [OF t_decoded, where J = json and flags = 0]
  have 1: "recv_message json 0 \<lparr>outbox = [], inbox = [([0x74], False)], rcvmore = False\<rparr>
     = (Inr (str ''t'', [], []), \<lparr>outbox = [], inbox = [], rcvmore = False\<rparr>)"
    using th [of "\<lparr>outbox = [], inbox = [([0x74], False)], rcvmore = False\<rparr>" "[]"]
    by simp
  have 2: "recv_message json 0
       \<lparr>outbox = [], inbox = [([0x74], True), ([], False)], rcvmore = False\<rparr>
     = (Inr (str ''t'', [], []), \<lparr>outbox = [], inbox = [], rcvmore = False\<rparr>)"
    using th [of "\<lparr>outbox = [], inbox = [([0x74], True), ([], False)], rcvmore = False\<rparr>" "[]"]
    by simp
  have 3: "recv_message json 0
       \<lparr>outbox = [], inbox = [([0x74], True), ([], True), ([1], True), ([2], False)],
        rcvmore = False\<rparr>
     = (Inr (str ''t'', [], [[1], [2]]), \<lparr>outbox = [], inbox = [], rcvmore = False\<rparr>)"
    using th [of "\<lparr>outbox = [], inbox = [([0x74], True), ([], True), ([1], True), ([2], False)],
        rcvmore = False\<rparr>" "[]" "[([1], True), ([2], False)]" "[[1], [2]]"]
    by simp
  have 4: "recv_message json 0
       \<lparr>outbox = [], inbox = [([0x74], True), ([0x7B, 0x7D], False)], rcvmore = False\<rparr>
     = (Inr (str ''t'', Headers [], []), \<lparr>outbox = [], inbox = [], rcvmore = False\<rparr>)"
    using th [of "\<lparr>outbox = [], inbox = [([0x74], True), ([0x7B, 0x7D], False)], rcvmore = False\<rparr>"
        "[]" _ _ "[0x7B, 0x7D]" "[123, 125]" "[]"]
    by (simp add: braces_decoded braces_parsed json_def)
  from 1 2 3 4 show ?thesis by (intro conjI)
qed

text \<open>
  C8. A headers frame that is not empty and does not decode as UTF-8, or whose text the
  structured-text codec refuses, makes \<open>recv_message\<close> raise a decode error. And no
  non-empty headers frame is ever taken for "no headers": when \<open>recv_message\<close> returns
  after such a frame, the headers are those of the mapping its text was parsed to.
\<close>

theorem malformed_headers_raise:
  assumes "inbox s = (t, True) # (h, m) # q" and "h \<noteq> []"
  shows "(utf8_decode h = None \<or> (\<exists>jt. utf8_decode h = Some jt \<and> loads J jt = None)
            \<longrightarrow> (\<exists>s'. recv_message J flags s = (Inl UnicodeDecodeError, s')
                    \<or> recv_message J flags s = (Inl JSONDecodeError, s')))
       \<and> (\<forall>topic hdrs parts s'.
             recv_message J flags s = (Inr (topic, hdrs, parts), s')
             \<longrightarrow> (\<exists>jt d. utf8_decode h = Some jt \<and> jt \<noteq> [] \<and> loads J jt = Some (PDict d)
                        \<and> hdrs = Headers d))"
proof (intro conjI impI allI)
  assume bad: "utf8_decode h = None \<or> (\<exists>jt. utf8_decode h = Some jt \<and> loads J jt = None)"
  show "\<exists>s'. recv_message J flags s = (Inl UnicodeDecodeError, s')
            \<or> recv_message J flags s = (Inl JSONDecodeError, s')"
  proof (cases "utf8_decode t")
    case None
    with assms show ?thesis
      by (simp add: recv_message_def recv_string_def recv_def)
  next
    case (Some topic)
    from bad show ?thesis
    proof
      assume "utf8_decode h = None"
      with assms Some show ?thesis
        by (simp add: recv_message_def recv_string_def recv_def)
    next
      assume "\<exists>jt. utf8_decode h = Some jt \<and> loads J jt = None"
      then obtain jt where jt: "utf8_decode h = Some jt" "loads J jt = None" by blast
      with assms(2) have "jt \<noteq> []" by (auto simp: utf8_decode_empty)
      with assms Some jt show ?thesis
        by (simp add: recv_message_def recv_string_def recv_def)
    qed
  qed
next
  fix topic hdrs parts s'
  assume ok: "recv_message J flags s = (Inr (topic, hdrs, parts), s')"
  from ok assms obtain jt where jt: "utf8_decode h = Some jt"
    by (auto simp: recv_message_def recv_string_def recv_def split: option.splits)
  with assms(2) have ne: "jt \<noteq> []" by (auto simp: utf8_decode_empty)
  from ok assms jt ne obtain d where "loads J jt = Some (PDict d)" "hdrs = Headers d"
    by (auto simp: recv_message_def recv_string_def recv_def
             split: option.splits if_splits prod.splits sum.splits pyval.splits)
  with jt ne show "\<exists>jt d. utf8_decode h = Some jt \<and> jt \<noteq> [] \<and> loads J jt = Some (PDict d)
                        \<and> hdrs = Headers d"
    by blast
qed

lemma bad_utf8: "utf8_decode [0xFF] = None"
  by code_simp

lemma brace_decoded: "utf8_decode [0x7B] = Some [123]"
  by code_simp

lemma brace_refused: "json_parse [123] = None"
  by code_simp

theorem malformed_headers_raise_witness:
  "(\<exists>s'. recv_message json 0
            \<lparr>outbox = [], inbox = [([0x74], True), ([0xFF], False)], rcvmore = False\<rparr>
            = (Inl UnicodeDecodeError, s')
          \<or> recv_message json 0
            \<lparr>outbox = [], inbox = [([0x74], True), ([0xFF], False)], rcvmore = False\<rparr>
            = (Inl JSONDecodeError, s'))
   \<and> (\<exists>s'. recv_message json 0
            \<lparr>outbox = [], inbox = [([0x74], True), ([0x7B], False)], rcvmore = False\<rparr>
            = (Inl UnicodeDecodeError, s')
          \<or> recv_message json 0
            \<lparr>outbox = [], inbox = [([0x74], True), ([0x7B], False)], rcvmore = False\<rparr>
            = (Inl JSONDecodeError, s'))"
proof -
  have i1: "inbox \<lparr>outbox = [], inbox = [([0x74], True), ([0xFF], False)], rcvmore = False\<rparr>
              = ([0x74], True) # ([0xFF], False) # []" by simp
  have i2: "inbox \<lparr>outbox = [], inbox = [([0x74], True), ([0x7B], False)], rcvmore = False\<rparr>
              = ([0x74], True) # ([0x7B], False) # []" by simp
  have n1: "[0xFF] \<noteq> ([] :: bytes)" and n2: "[0x7B] \<noteq> ([] :: bytes)" by simp_all
  have b2: "\<exists>jt. utf8_decode [0x7B] = Some jt \<and> loads json jt = None"
    by (simp add: brace_decoded brace_refused json_def)
  from malformed_headers_raise [OF i1 n1, of json 0] bad_utf8
       malformed_headers_raise [OF i2 n2, of json 0] b2
  show ?thesis by blast
qed

section \<open>Receiving the extended form\<close>

lemma recv_message_ex_iterable:
  assumes "recv_message J flags s = (Inr (topic, headers, message), s')"
    and "py_iter (getitem headers Content_Type) = Some types"
  shows "recv_message_ex J flags s = (Inr (topic, headers, zip types message), s')"
  using assms by (simp add: recv_message_ex_def)

text \<open>
  C9. \<open>recv_message_ex\<close> pairs the items of the \<open>Content-Type\<close> header with the parts by
  position and stops at the shorter of the two: the result has the length of the shorter
  one and its \<open>i\<close>-th pair is the \<open>i\<close>-th content type with the \<open>i\<close>-th part. With no
  \<open>Content-Type\<close> header the paired list is empty, whatever parts were received.
\<close>

theorem content_types_paired_truncating:
  assumes "recv_message J flags s = (Inr (topic, headers, message), s')"
  shows "(\<forall>types. py_iter (getitem headers Content_Type) = Some types \<longrightarrow>
            (\<exists>paired. recv_message_ex J flags s = (Inr (topic, headers, paired), s')
               \<and> length paired = min (length types) (length message)
               \<and> (\<forall>i < min (length types) (length message).
                     paired ! i = (types ! i, message ! i))))
       \<and> (\<not> has_key headers Content_Type \<longrightarrow>
            recv_message_ex J flags s = (Inr (topic, headers, []), s'))"
proof (intro conjI allI impI)
  fix types
  assume t: "py_iter (getitem headers Content_Type) = Some types"
  have "recv_message_ex J flags s = (Inr (topic, headers, zip types message), s')"
    using assms t by (rule recv_message_ex_iterable)
  moreover have "length (zip types message) = min (length types) (length message)"
    by simp
  moreover have "\<forall>i < min (length types) (length message).
      zip types message ! i = (types ! i, message ! i)"
    by simp
  ultimately show "\<exists>paired. recv_message_ex J flags s = (Inr (topic, headers, paired), s')
      \<and> length paired = min (length types) (length message)
      \<and> (\<forall>i < min (length types) (length message). paired ! i = (types ! i, message ! i))"
    by blast
next
  assume "\<not> has_key headers Content_Type"
  then have "py_iter (getitem headers Content_Type) = Some []"
    by (simp add: getitem_absent)
  with assms show "recv_message_ex J flags s = (Inr (topic, headers, []), s')"
    by (simp add: recv_message_ex_def)
qed

lemma one_type_decoded:
  "utf8_decode [0x7B, 0x22, 0x43, 0x6F, 0x6E, 0x74, 0x65, 0x6E, 0x74, 0x2D, 0x54, 0x79, 0x70,
                0x65, 0x22, 0x3A, 0x5B, 0x22, 0x61, 0x22, 0x5D, 0x7D]
   = Some [123, 34, 67, 111, 110, 116, 101, 110, 116, 45, 84, 121, 112, 101, 34, 58, 91, 34,
           97, 34, 93, 125]"
  by code_simp

lemma one_type_parsed:
  "json_parse [123, 34, 67, 111, 110, 116, 101, 110, 116, 45, 84, 121, 112, 101, 34, 58, 91, 34,
               97, 34, 93, 125]
   = Some (PDict [(str ''Content-Type'', PList [PStr (str ''a'')])])"
  by code_simp

lemma Headers_one: "Headers [(k, v)] = [(k, v)]"
  by (simp add: Headers_def setitem_def has_key_def)

lemma getitem_one: "getitem [(str ''Content-Type'', v)] Content_Type = v"
  by (simp add: getitem_def Content_Type_def same_key_def)

text \<open>
  The headers frame of the first message is \<open>{"Content-Type":["a"]}\<close>; two parts follow
  it and one pair comes back. The second message has an empty headers frame and one part.
\<close>

theorem content_types_paired_truncating_witness:
  "(\<exists>paired. recv_message_ex json 0
       \<lparr>outbox = [],
        inbox = [([0x74], True),
                 ([0x7B, 0x22, 0x43, 0x6F, 0x6E, 0x74, 0x65, 0x6E, 0x74, 0x2D, 0x54, 0x79, 0x70,
                   0x65, 0x22, 0x3A, 0x5B, 0x22, 0x61, 0x22, 0x5D, 0x7D], True),
                 ([1], True), ([2], False)],
        rcvmore = False\<rparr>
      = (Inr (str ''t'', [(str ''Content-Type'', PList [PStr (str ''a'')])], paired),
         \<lparr>outbox = [], inbox = [], rcvmore = False\<rparr>)
      \<and> length paired = 1 \<and> paired ! 0 = (PStr (str ''a''), [1]))
   \<and> recv_message_ex json 0
       \<lparr>outbox = [], inbox = [([0x74], True), ([], True), ([1], False)], rcvmore = False\<rparr>
      = (Inr (str ''t'', [], []), \<lparr>outbox = [], inbox = [], rcvmore = False\<rparr>)"
proof -
  let ?h = "[0x7B, 0x22, 0x43, 0x6F, 0x6E, 0x74, 0x65, 0x6E, 0x74, 0x2D, 0x54, 0x79, 0x70,
             0x65, 0x22, 0x3A, 0x5B, 0x22, 0x61, 0x22, 0x5D, 0x7D] :: bytes"
  let ?s1 = "\<lparr>outbox = [], inbox = [([0x74], True), (?h, True), ([1], True), ([2], False)],
              rcvmore = False\<rparr>"
  let ?s2 = "\<lparr>outbox = [], inbox = [([0x74], True), ([], True), ([1], False)],
              rcvmore = False\<rparr>"
  have r1: "recv_message json 0 ?s1
      = (Inr (str ''t'', [(str ''Content-Type'', PList [PStr (str ''a'')])], [[1], [2]]),
         \<lparr>outbox = [], inbox = [], rcvmore = False\<rparr>)"
    using recv_message_parts [of ?s1 "[0x74]" ?h "[([1], True), ([2], False)]" "str ''t''"
        _ json "[(str ''Content-Type'', PList [PStr (str ''a'')])]" "[[1], [2]]" "[]" 0]
    by (simp add: t_decoded one_type_decoded one_type_parsed json_def Headers_one)
  have r2: "recv_message json 0 ?s2
      = (Inr (str ''t'', [], [[1]]), \<lparr>outbox = [], inbox = [], rcvmore = False\<rparr>)"
    using recv_message_parts [of ?s2 "[0x74]" "[]" "[([1], False)]" "str ''t''"
        "[]" json "[]" "[[1]]" "[]" 0]
    by (simp add: t_decoded utf8_decode_Nil Headers_Nil)
  have a: "\<not> has_key [] Content_Type" by (simp add: has_key_def)
  from content_types_paired_truncating [OF r1] content_types_paired_truncating [OF r2] a
  show ?thesis
    by (simp add: getitem_one)
qed

text \<open>
  C10 (as amended). \<open>recv_message_ex\<close> receives exactly as \<open>recv_message\<close> does: where
  \<open>recv_message\<close> raises, it raises the same error; where \<open>recv_message\<close> returns and the
  value of the \<open>Content-Type\<close> header can be iterated (a sequence, a string, a mapping, or
  the empty sequence of an absent key), it returns the same topic and the same headers,
  the \<open>Content-Type\<close> entry untouched, with the parts zipped to the content types; and where
  that value cannot be iterated it raises \<open>TypeError\<close>. The socket is left the same in all
  three cases. As stated, for every frame sequence on which \<open>recv_message\<close> succeeds, the
  claim fails on a headers frame such as \<open>{"Content-Type":5}\<close>, the counterexample
  below.
\<close>

theorem recv_message_ex_refines:
  "(\<forall>e s'. recv_message J flags s = (Inl e, s') \<longrightarrow> recv_message_ex J flags s = (Inl e, s'))
   \<and> (\<forall>topic headers message s' types.
         recv_message J flags s = (Inr (topic, headers, message), s')
         \<and> py_iter (getitem headers Content_Type) = Some types
         \<longrightarrow> recv_message_ex J flags s = (Inr (topic, headers, zip types message), s'))
   \<and> (\<forall>topic headers message s'.
         recv_message J flags s = (Inr (topic, headers, message), s')
         \<and> py_iter (getitem headers Content_Type) = None
         \<longrightarrow> recv_message_ex J flags s = (Inl TypeError, s'))"
  by (simp add: recv_message_ex_def)

lemma five_decoded:
  "utf8_decode [0x7B, 0x22, 0x43, 0x6F, 0x6E, 0x74, 0x65, 0x6E, 0x74, 0x2D, 0x54, 0x79, 0x70,
                0x65, 0x22, 0x3A, 0x35, 0x7D]
   = Some [123, 34, 67, 111, 110, 116, 101, 110, 116, 45, 84, 121, 112, 101, 34, 58, 53, 125]"
  by code_simp

lemma five_parsed:
  "json_parse [123, 34, 67, 111, 110, 116, 101, 110, 116, 45, 84, 121, 112, 101, 34, 58, 53, 125]
   = Some (PDict [(str ''Content-Type'', PInt 5)])"
  by code_simp

lemma recv_five:
  "recv_message json 0
     \<lparr>outbox = [],
      inbox = [([0x74], True),
               ([0x7B, 0x22, 0x43, 0x6F, 0x6E, 0x74, 0x65, 0x6E, 0x74, 0x2D, 0x54, 0x79, 0x70,
                 0x65, 0x22, 0x3A, 0x35, 0x7D], False)],
      rcvmore = False\<rparr>
   = (Inr (str ''t'', [(str ''Content-Type'', PInt 5)], []),
      \<lparr>outbox = [], inbox = [], rcvmore = False\<rparr>)"
  using recv_message_no_parts [of
      "\<lparr>outbox = [],
        inbox = [([0x74], True),
               ([0x7B, 0x22, 0x43, 0x6F, 0x6E, 0x74, 0x65, 0x6E, 0x74, 0x2D, 0x54, 0x79, 0x70,
                 0x65, 0x22, 0x3A, 0x35, 0x7D], False)],
        rcvmore = False\<rparr>"
      "[0x74]" _ "[]" "str ''t''" _ json "[(str ''Content-Type'', PInt 5)]" 0]
  by (simp add: t_decoded five_decoded five_parsed json_def Headers_one)

text \<open>
  The topic frame \<open>t\<close> and the headers frame \<open>{"Content-Type":5}\<close>: \<open>recv_message\<close>
  returns, \<open>recv_message_ex\<close> raises \<open>TypeError\<close> (\<open>zip\<close> cannot iterate \<open>5\<close>).
\<close>

theorem content_type_not_iterable_counterexample:
  "recv_message json 0
     \<lparr>outbox = [],
      inbox = [([0x74], True),
               ([0x7B, 0x22, 0x43, 0x6F, 0x6E, 0x74, 0x65, 0x6E, 0x74, 0x2D, 0x54, 0x79, 0x70,
                 0x65, 0x22, 0x3A, 0x35, 0x7D], False)],
      rcvmore = False\<rparr>
   = (Inr (str ''t'', [(str ''Content-Type'', PInt 5)], []),
      \<lparr>outbox = [], inbox = [], rcvmore = False\<rparr>)
   \<and> recv_message_ex json 0
     \<lparr>outbox = [],
      inbox = [([0x74], True),
               ([0x7B, 0x22, 0x43, 0x6F, 0x6E, 0x74, 0x65, 0x6E, 0x74, 0x2D, 0x54, 0x79, 0x70,
                 0x65, 0x22, 0x3A, 0x35, 0x7D], False)],
      rcvmore = False\<rparr>
   = (Inl TypeError, \<lparr>outbox = [], inbox = [], rcvmore = False\<rparr>)"
  by (simp add: recv_five recv_message_ex_def getitem_one)

lemma recv_bad_topic:
  "recv_message json 0 \<lparr>outbox = [], inbox = [([0xFF], False)], rcvmore = False\<rparr>
   = (Inl UnicodeDecodeError, \<lparr>outbox = [], inbox = [], rcvmore = False\<rparr>)"
  by (simp add: recv_message_def recv_string_def recv_def bad_utf8)

lemma recv_one_type:
  "recv_message json 0
     \<lparr>outbox = [],
      inbox = [([0x74], True),
               ([0x7B, 0x22, 0x43, 0x6F, 0x6E, 0x74, 0x65, 0x6E, 0x74, 0x2D, 0x54, 0x79, 0x70,
                 0x65, 0x22, 0x3A, 0x5B, 0x22, 0x61, 0x22, 0x5D, 0x7D], True),
               ([1], False)],
      rcvmore = False\<rparr>
   = (Inr (str ''t'', [(str ''Content-Type'', PList [PStr (str ''a'')])], [[1]]),
      \<lparr>outbox = [], inbox = [], rcvmore = False\<rparr>)"
  using recv_message_parts [of
      "\<lparr>outbox = [],
        inbox = [([0x74], True),
               ([0x7B, 0x22, 0x43, 0x6F, 0x6E, 0x74, 0x65, 0x6E, 0x74, 0x2D, 0x54, 0x79, 0x70,
                 0x65, 0x22, 0x3A, 0x5B, 0x22, 0x61, 0x22, 0x5D, 0x7D], True),
               ([1], False)],
        rcvmore = False\<rparr>"
      "[0x74]" _ "[([1], False)]" "str ''t''" _ json
      "[(str ''Content-Type'', PList [PStr (str ''a'')])]" "[[1]]" "[]" 0]
  by (simp add: t_decoded one_type_decoded one_type_parsed json_def Headers_one)

theorem recv_message_ex_refines_witness:
  "recv_message_ex json 0 \<lparr>outbox = [], inbox = [([0xFF], False)], rcvmore = False\<rparr>
     = (Inl UnicodeDecodeError, \<lparr>outbox = [], inbox = [], rcvmore = False\<rparr>)
   \<and> recv_message_ex json 0
       \<lparr>outbox = [],
        inbox = [([0x74], True),
               ([0x7B, 0x22, 0x43, 0x6F, 0x6E, 0x74, 0x65, 0x6E, 0x74, 0x2D, 0x54, 0x79, 0x70,
                 0x65, 0x22, 0x3A, 0x5B, 0x22, 0x61, 0x22, 0x5D, 0x7D], True),
               ([1], False)],
        rcvmore = False\<rparr>
     = (Inr (str ''t'', [(str ''Content-Type'', PList [PStr (str ''a'')])],
             [(PStr (str ''a''), [1])]),
        \<lparr>outbox = [], inbox = [], rcvmore = False\<rparr>)
   \<and> recv_message_ex json 0
       \<lparr>outbox = [],
        inbox = [([0x74], True),
               ([0x7B, 0x22, 0x43, 0x6F, 0x6E, 0x74, 0x65, 0x6E, 0x74, 0x2D, 0x54, 0x79, 0x70,
                 0x65, 0x22, 0x3A, 0x35, 0x7D], False)],
        rcvmore = False\<rparr>
     = (Inl TypeError, \<lparr>outbox = [], inbox = [], rcvmore = False\<rparr>)"
proof -
  note th = recv_message_ex_refines [where J = json and flags = 0]
  have 1: "recv_message_ex json 0 \<lparr>outbox = [], inbox = [([0xFF], False)], rcvmore = False\<rparr>
     = (Inl UnicodeDecodeError, \<lparr>outbox = [], inbox = [], rcvmore = False\<rparr>)"
    using th recv_bad_topic by blast
  have "py_iter (getitem [(str ''Content-Type'', PList [PStr (str ''a'')])] Content_Type)
          = Some [PStr (str ''a'')]"
    by (simp add: getitem_one)
  with th recv_one_type have 2: "recv_message_ex json 0
       \<lparr>outbox = [],
        inbox = [([0x74], True),
               ([0x7B, 0x22, 0x43, 0x6F, 0x6E, 0x74, 0x65, 0x6E, 0x74, 0x2D, 0x54, 0x79, 0x70,
                 0x65, 0x22, 0x3A, 0x5B, 0x22, 0x61, 0x22, 0x5D, 0x7D], True),
               ([1], False)],
        rcvmore = False\<rparr>
     = (Inr (str ''t'', [(str ''Content-Type'', PList [PStr (str ''a'')])],
             zip [PStr (str ''a'')] [[1]]),
        \<lparr>outbox = [], inbox = [], rcvmore = False\<rparr>)"
    by blast
  have "py_iter (getitem [(str ''Content-Type'', PInt 5)] Content_Type) = None"
    by (simp add: getitem_one)
  with th recv_five have 3: "recv_message_ex json 0
       \<lparr>outbox = [],
        inbox = [([0x74], True),
               ([0x7B, 0x22, 0x43, 0x6F, 0x6E, 0x74, 0x65, 0x6E, 0x74, 0x2D, 0x54, 0x79, 0x70,
                 0x65, 0x22, 0x3A, 0x35, 0x7D], False)],
        rcvmore = False\<rparr>
     = (Inl TypeError, \<lparr>outbox = [], inbox = [], rcvmore = False\<rparr>)"
    by blast
  from 1 2 3 show ?thesis by simp
qed

section \<open>The plain round trip\<close>

lemma take_message_part_frames:
  "P \<noteq> [] \<Longrightarrow> take_message (part_frames P False @ rest) = Some (P, rest)"
proof (induction P)
  case Nil
  then show ?case by simp
next
  case (Cons b P)
  show ?case
  proof (cases "P = []")
    case True
    then show ?thesis by (simp add: part_frames_def)
  next
    case False
    with Cons.IH have "take_message (part_frames P False @ rest) = Some (P, rest)" by simp
    moreover from False have "part_frames (b # P) False = (b, True) # part_frames P False"
      by (simp add: part_frames_def)
    ultimately show ?thesis by simp
  qed
qed

lemma recv_message_of_frames:
  assumes t: "utf8_decode tb = Some topic"
    and h: "utf8_decode hb = Some jtext" "jtext \<noteq> []" "loads J jtext = Some (PDict d)"
    and i: "inbox b = [(tb, True), (hb, P \<noteq> [])] @ part_frames P False @ rest"
  shows "recv_message J flags b
           = (Inr (topic, Headers d, P), b\<lparr>inbox := rest, rcvmore := False\<rparr>)"
proof (cases "P = []")
  case True
  with i have "inbox b = (tb, True) # (hb, False) # rest" by (simp add: part_frames_def)
  from recv_message_no_parts [OF this t h(1), of J d flags] h(2,3) True
  show ?thesis by simp
next
  case False
  with i have "inbox b = (tb, True) # (hb, True) # (part_frames P False @ rest)" by simp
  from recv_message_parts [OF this t h(1) _ take_message_part_frames [OF False], of J d flags]
       h(2,3)
  show ?thesis by simp
qed

text \<open>
  C1. For every topic that encodes as UTF-8, every header mapping \<open>H\<close> that the
  structured-text codec round-trips (as a \<open>Headers\<close> dict) and every list \<open>P\<close> of byte
  parts, \<open>send_message(T, H, *P)\<close> succeeds, and \<open>recv_message\<close> on the frames it sent
  returns \<open>(T, Headers(H), P)\<close>, leaving what follows them in the inbox. \<open>H\<close> and \<open>P\<close>
  may be empty.
\<close>

theorem plain_round_trip:
  assumes t: "utf8_encode T \<noteq> None"
    and h: "codec_round_trips J (headers_dict (Headers H))"
  shows "\<exists>sent. send_message J T (Mapping H) (map PBytes P) [] a
                 = (Inr (), a\<lparr>outbox := outbox a @ sent\<rparr>)
          \<and> (\<forall>b rest. inbox b = sent @ rest \<longrightarrow>
                recv_message J flags b
                  = (Inr (T, Headers H, P), b\<lparr>inbox := rest, rcvmore := False\<rparr>))"
proof -
  from t obtain tb where tb: "utf8_encode T = Some tb" by blast
  from h obtain jtext hb where j: "dumps J (PDict (headers_dict (Headers H))) = Some jtext"
      "jtext \<noteq> []" "utf8_encode jtext = Some hb"
      "loads J jtext = Some (PDict (headers_dict (Headers H)))"
    by (auto simp: codec_round_trips_def split: option.splits)
  let ?sent = "[(tb, True), (hb, P \<noteq> [])] @ part_frames P False"
  have kw: "([] :: (string \<times> int) list) = [] \<and> (0::int) = 0 \<or> [] = [(''flags'', 0::int)]"
    by simp
  have "send_message J T (Mapping H) (map PBytes P) [] a
          = (Inr (), a\<lparr>outbox := outbox a @ [(tb, True), (hb, P \<noteq> [] \<or> (0::int) AND SNDMORE \<noteq> 0)]
                              @ part_frames P ((0::int) AND SNDMORE \<noteq> 0)\<rparr>)"
    using kw tb _ j(3)
    by (rule send_message_sends) (simp add: chosen_headers_Mapping j(1))
  then have s: "send_message J T (Mapping H) (map PBytes P) [] a
          = (Inr (), a\<lparr>outbox := outbox a @ ?sent\<rparr>)"
    by simp
  have r: "recv_message J flags b
             = (Inr (T, Headers H, P), b\<lparr>inbox := rest, rcvmore := False\<rparr>)"
    if "inbox b = ?sent @ rest" for b rest
  proof -
    from that have "inbox b = [(tb, True), (hb, P \<noteq> [])] @ part_frames P False @ rest"
      by simp
    from recv_message_of_frames [OF utf8_roundtrip [OF tb] utf8_roundtrip [OF j(3)] j(2) j(4) this]
    show ?thesis by (simp add: Headers_Headers)
  qed
  from s r show ?thesis by blast
qed


lemma topic_bytes:
  "utf8_encode (str ''devices/temp'')
   = Some [0x64, 0x65, 0x76, 0x69, 0x63, 0x65, 0x73, 0x2F, 0x74, 0x65, 0x6D, 0x70]"
  by code_simp

lemma empty_round_trips: "codec_round_trips json (headers_dict (Headers []))"
  by (simp add: codec_round_trips_def Headers_Nil headers_dict_def json_def empty_dict_text
        empty_dict_bytes braces_parsed)

text \<open>
  The scenario of the spec: \<open>send_message("devices/temp", {}, b"payload1")\<close>, then
  \<open>recv_message\<close> on the frames sent.
\<close>

theorem plain_round_trip_witness:
  "\<exists>sent. send_message json (str ''devices/temp'') (Mapping [])
             (map PBytes [[0x70, 0x61, 0x79, 0x6C, 0x6F, 0x61, 0x64, 0x31]]) []
             \<lparr>outbox = [], inbox = [], rcvmore = False\<rparr>
           = (Inr (), \<lparr>outbox = sent, inbox = [], rcvmore = False\<rparr>)
         \<and> recv_message json 0 \<lparr>outbox = [], inbox = sent, rcvmore = False\<rparr>
           = (Inr (str ''devices/temp'', Headers [],
                   [[0x70, 0x61, 0x79, 0x6C, 0x6F, 0x61, 0x64, 0x31]]),
              \<lparr>outbox = [], inbox = [], rcvmore = False\<rparr>)"
proof -
  have t: "utf8_encode (str ''devices/temp'') \<noteq> None"
    by (simp add: topic_bytes)
  from plain_round_trip [OF t empty_round_trips,
      of "[[0x70, 0x61, 0x79, 0x6C, 0x6F, 0x61, 0x64, 0x31]]"
         "\<lparr>outbox = [], inbox = [], rcvmore = False\<rparr>" 0]
  obtain sent where s: "send_message json (str ''devices/temp'') (Mapping [])
             (map PBytes [[0x70, 0x61, 0x79, 0x6C, 0x6F, 0x61, 0x64, 0x31]]) []
             \<lparr>outbox = [], inbox = [], rcvmore = False\<rparr>
           = (Inr (), \<lparr>outbox = [], inbox = [], rcvmore = False\<rparr>
                \<lparr>outbox := outbox \<lparr>outbox = [], inbox = [], rcvmore = False\<rparr> @ sent\<rparr>)"
    and r: "\<forall>b rest. inbox b = sent @ rest \<longrightarrow>
              recv_message json 0 b
                = (Inr (str ''devices/temp'', Headers [],
                        [[0x70, 0x61, 0x79, 0x6C, 0x6F, 0x61, 0x64, 0x31]]),
                   b\<lparr>inbox := rest, rcvmore := False\<rparr>)"
    by blast
  from r have "recv_message json 0 \<lparr>outbox = [], inbox = sent, rcvmore = False\<rparr>
           = (Inr (str ''devices/temp'', Headers [],
                   [[0x70, 0x61, 0x79, 0x6C, 0x6F, 0x61, 0x64, 0x31]]),
              \<lparr>outbox = [], inbox = sent, rcvmore = False\<rparr>\<lparr>inbox := [], rcvmore := False\<rparr>)"
    by (elim allE [where x = "\<lparr>outbox = [], inbox = sent, rcvmore = False\<rparr>"]
             allE [where x = "[]"]) simp
  with s show ?thesis by (intro exI [where x = sent]) simp
qed

section \<open>Sending the extended form: the arity of the tuples\<close>

lemma py_zip_short: "\<exists>r \<in> set rows. length r < n \<Longrightarrow> length (py_zip rows) < n"
proof (induction n arbitrary: rows)
  case 0
  then show ?case by simp
next
  case (Suc n)
  show ?case
  proof (cases "rows = [] \<or> (\<exists>r \<in> set rows. r = [])")
    case True
    then show ?thesis by (subst py_zip.simps) simp
  next
    case False
    from Suc.prems obtain r where r: "r \<in> set rows" "length r < Suc n" by blast
    with False have "r \<noteq> []" by blast
    with r have "tl r \<in> set (map tl rows)" "length (tl r) < n"
      by (auto simp: neq_Nil_conv)
    then have "length (py_zip (map tl rows)) < n" using Suc.IH by blast
    with False show ?thesis by (subst py_zip.simps) simp
  qed
qed

lemma py_zip_long:
  "rows \<noteq> [] \<Longrightarrow> \<forall>r \<in> set rows. n \<le> length r \<Longrightarrow> n \<le> length (py_zip rows)"
proof (induction n arbitrary: rows)
  case 0
  then show ?case by simp
next
  case (Suc n)
  then have ne: "\<not> (rows = [] \<or> (\<exists>r \<in> set rows. r = []))" by auto
  from Suc.prems have "map tl rows \<noteq> []" "\<forall>r \<in> set (map tl rows). n \<le> length r" by auto
  then have "n \<le> length (py_zip (map tl rows))" by (rule Suc.IH)
  with ne show ?case by (subst py_zip.simps) simp
qed

lemma py_zip_not_two:
  assumes "rows \<noteq> []" and "(\<exists>r \<in> set rows. length r < 2) \<or> (\<forall>r \<in> set rows. 2 < length r)"
  shows "length (py_zip rows) \<noteq> 2"
proof -
  from assms(2) show ?thesis
  proof
    assume "\<exists>r \<in> set rows. length r < 2"
    then have "length (py_zip rows) < 2" by (rule py_zip_short)
    then show ?thesis by simp
  next
    assume "\<forall>r \<in> set rows. 2 < length r"
    then have "\<forall>r \<in> set rows. 3 \<le> length r" by auto
    with assms(1) have "3 \<le> length (py_zip rows)" by (rule py_zip_long)
    then show ?thesis by simp
  qed
qed

lemma not_two_columns: "length cols \<noteq> 2 \<Longrightarrow> (case cols of [a, b] \<Rightarrow> f a b | _ \<Rightarrow> e) = e"
  by (cases cols rule: list.exhaust [case_product list.exhaust])
     (auto split: list.splits)

text \<open>
  C5 (as amended). \<open>send_message_ex\<close> raises before it sends a frame when a tuple cannot
  be iterated at all (\<open>TypeError\<close>), and when the shortest of its tuples has a length
  other than two, that is when some tuple has fewer than two items or every tuple has
  more than two (\<open>ValueError\<close> from the unpacking). It does not check the tuples one by
  one: the claim as stated fails on a sequence that holds a 2-tuple and a longer one, from
  which \<open>zip\<close> drops the extra items without a word (the counterexample below).
\<close>

theorem wrong_arity_refused:
  "(those (map py_iter msg_tuples) = None \<longrightarrow>
      send_message_ex J topic headers msg_tuples kwargs s = (Inl TypeError, s))
   \<and> (\<forall>rows. those (map py_iter msg_tuples) = Some rows \<and> rows \<noteq> []
         \<and> ((\<exists>r \<in> set rows. length r < 2) \<or> (\<forall>r \<in> set rows. 2 < length r))
         \<longrightarrow> send_message_ex J topic headers msg_tuples kwargs s = (Inl ValueError, s))"
proof (intro conjI allI impI)
  assume "those (map py_iter msg_tuples) = None"
  then show "send_message_ex J topic headers msg_tuples kwargs s = (Inl TypeError, s)"
    by (simp add: send_message_ex_def)
next
  fix rows
  assume a: "those (map py_iter msg_tuples) = Some rows \<and> rows \<noteq> []
         \<and> ((\<exists>r \<in> set rows. length r < 2) \<or> (\<forall>r \<in> set rows. 2 < length r))"
  then have "length (py_zip rows) \<noteq> 2" by (intro py_zip_not_two) simp_all
  with a show "send_message_ex J topic headers msg_tuples kwargs s = (Inl ValueError, s)"
    by (simp add: send_message_ex_def not_two_columns)
qed


lemma two_types_text:
  "json_text (PDict [(str ''Content-Type'', PList [PStr (str ''a''), PStr (str ''b'')])])
   = Some [123, 34, 67, 111, 110, 116, 101, 110, 116, 45, 84, 121, 112, 101, 34, 58, 91, 34,
           97, 34, 44, 34, 98, 34, 93, 125]"
  by code_simp

lemma two_types_bytes:
  "utf8_encode [123, 34, 67, 111, 110, 116, 101, 110, 116, 45, 84, 121, 112, 101, 34, 58, 91,
                34, 97, 34, 44, 34, 98, 34, 93, 125]
   = Some [0x7B, 0x22, 0x43, 0x6F, 0x6E, 0x74, 0x65, 0x6E, 0x74, 0x2D, 0x54, 0x79, 0x70, 0x65,
           0x22, 0x3A, 0x5B, 0x22, 0x61, 0x22, 0x2C, 0x22, 0x62, 0x22, 0x5D, 0x7D]"
  by code_simp

lemma setitem_Nil: "setitem [] k v = [(k, v)]"
  by (simp add: setitem_def has_key_def)

text \<open>
  \<open>send_message_ex('t', {}, ('a', b'\x01'), ('b', b'\x02', b'\x03'))\<close>: the second
  tuple has three items, no error is raised, and four frames go out, the headers frame
  being \<open>{"Content-Type":["a","b"]}\<close>; the third item is lost.
\<close>

theorem long_tuple_counterexample:
  "send_message_ex json (str ''t'') (Mapping [])
     [PList [PStr (str ''a''), PBytes [1]], PList [PStr (str ''b''), PBytes [2], PBytes [3]]] []
     \<lparr>outbox = [], inbox = [], rcvmore = False\<rparr>
   = (Inr (),
      \<lparr>outbox = [([0x74], True),
                 ([0x7B, 0x22, 0x43, 0x6F, 0x6E, 0x74, 0x65, 0x6E, 0x74, 0x2D, 0x54, 0x79, 0x70,
                   0x65, 0x22, 0x3A, 0x5B, 0x22, 0x61, 0x22, 0x2C, 0x22, 0x62, 0x22, 0x5D, 0x7D],
                  True),
                 ([1], True), ([2], False)],
       inbox = [], rcvmore = False\<rparr>)"
proof -
  let ?d = "[(str ''Content-Type'', PList [PStr (str ''a''), PStr (str ''b'')])]"
  let ?s = "\<lparr>outbox = [], inbox = [], rcvmore = False\<rparr>"
  have z: "py_zip [[PStr (str ''a''), PBytes [1]], [PStr (str ''b''), PBytes [2], PBytes [3]]]
      = [[PStr (str ''a''), PStr (str ''b'')], [PBytes [1], PBytes [2]]]"
    by (simp add: py_zip.simps)
  have kw: "([] :: (string \<times> int) list) = [] \<and> (0::int) = 0 \<or> [] = [(''flags'', 0::int)]"
    by simp
  have "send_message json (str ''t'') (Mapping ?d) (map PBytes [[1], [2]]) [] ?s
      = (Inr (), ?s\<lparr>outbox := outbox ?s @ [([0x74], True),
            ([0x7B, 0x22, 0x43, 0x6F, 0x6E, 0x74, 0x65, 0x6E, 0x74, 0x2D, 0x54, 0x79, 0x70,
              0x65, 0x22, 0x3A, 0x5B, 0x22, 0x61, 0x22, 0x2C, 0x22, 0x62, 0x22, 0x5D, 0x7D],
             [[1], [2 :: byte]] \<noteq> [] \<or> (0::int) AND SNDMORE \<noteq> 0)]
          @ part_frames [[1], [2]] ((0::int) AND SNDMORE \<noteq> 0)\<rparr>)"
    using kw t_bytes _ two_types_bytes
    by (rule send_message_sends)
       (simp add: chosen_headers_Mapping Headers_one headers_dict_def json_def two_types_text
          del: json_text.simps)
  then have "send_message json (str ''t'') (Mapping ?d) [PBytes [1], PBytes [2]] [] ?s
      = (Inr (), \<lparr>outbox = [([0x74], True),
            ([0x7B, 0x22, 0x43, 0x6F, 0x6E, 0x74, 0x65, 0x6E, 0x74, 0x2D, 0x54, 0x79, 0x70,
              0x65, 0x22, 0x3A, 0x5B, 0x22, 0x61, 0x22, 0x2C, 0x22, 0x62, 0x22, 0x5D, 0x7D], True),
            ([1], True), ([2], False)], inbox = [], rcvmore = False\<rparr>)"
    by (simp add: part_frames_def)
  then show ?thesis
    by (simp add: send_message_ex_def z Headers_Nil setitem_Nil headers_dict_def Content_Type_def)
qed

theorem wrong_arity_refused_witness:
  "send_message_ex json (str ''t'') (Mapping []) [PInt 5] []
     \<lparr>outbox = [], inbox = [], rcvmore = False\<rparr>
     = (Inl TypeError, \<lparr>outbox = [], inbox = [], rcvmore = False\<rparr>)
   \<and> send_message_ex json (str ''t'') (Mapping [])
       [PList [PStr (str ''a''), PBytes [1]], PList [PStr (str ''b'')]] []
       \<lparr>outbox = [], inbox = [], rcvmore = False\<rparr>
     = (Inl ValueError, \<lparr>outbox = [], inbox = [], rcvmore = False\<rparr>)
   \<and> send_message_ex json (str ''t'') (Mapping [])
       [PList [PStr (str ''a''), PBytes [1], PBytes [2]]] []
       \<lparr>outbox = [], inbox = [], rcvmore = False\<rparr>
     = (Inl ValueError, \<lparr>outbox = [], inbox = [], rcvmore = False\<rparr>)"
proof -
  note th = wrong_arity_refused [where J = json and topic = "str ''t''"
      and headers = "Mapping []" and kwargs = "[]"
      and s = "\<lparr>outbox = [], inbox = [], rcvmore = False\<rparr>"]
  have 1: "send_message_ex json (str ''t'') (Mapping []) [PInt 5] []
     \<lparr>outbox = [], inbox = [], rcvmore = False\<rparr>
     = (Inl TypeError, \<lparr>outbox = [], inbox = [], rcvmore = False\<rparr>)"
    using th [of "[PInt 5]"] by simp
  have 2: "send_message_ex json (str ''t'') (Mapping [])
       [PList [PStr (str ''a''), PBytes [1]], PList [PStr (str ''b'')]] []
       \<lparr>outbox = [], inbox = [], rcvmore = False\<rparr>
     = (Inl ValueError, \<lparr>outbox = [], inbox = [], rcvmore = False\<rparr>)"
    using th [of "[PList [PStr (str ''a''), PBytes [1]], PList [PStr (str ''b'')]]"] by simp
  have 3: "send_message_ex json (str ''t'') (Mapping [])
       [PList [PStr (str ''a''), PBytes [1], PBytes [2]]] []
       \<lparr>outbox = [], inbox = [], rcvmore = False\<rparr>
     = (Inl ValueError, \<lparr>outbox = [], inbox = [], rcvmore = False\<rparr>)"
    using th [of "[PList [PStr (str ''a''), PBytes [1], PBytes [2]]]"] by simp
  from 1 2 3 show ?thesis by simp
qed

section \<open>The extended round trip\<close>

lemma those_iter_tuples:
  "those (map py_iter (tuples_of L)) = Some (map (\<lambda>p. [PStr (fst p), PBytes (snd p)]) L)"
  by (induction L) (simp_all add: tuples_of_def)

lemma py_zip_Nil_row: "py_zip ([] # rows) = []"
  by (subst py_zip.simps) simp

lemma py_zip_singletons: "py_zip ([g x] # map (\<lambda>p. [g p]) L) = [g x # map g L]"
  by (subst py_zip.simps) (auto simp: comp_def py_zip_Nil_row)

lemma py_zip_Cons2:
  "py_zip ([f x, g x] # map (\<lambda>p. [f p, g p]) L) = [f x # map f L, g x # map g L]"
  by (subst py_zip.simps) (auto simp: comp_def py_zip_singletons)

lemma py_zip_tuples:
  "L \<noteq> [] \<Longrightarrow>
   py_zip (map (\<lambda>p. [PStr (fst p), PBytes (snd p)]) L) = [types_of L, map PBytes (map snd L)]"
proof (cases L)
  case Nil
  assume "L \<noteq> []"
  with Nil show ?thesis by simp
next
  case (Cons x L')
  have "py_zip ([PStr (fst x), PBytes (snd x)] # map (\<lambda>p. [PStr (fst p), PBytes (snd p)]) L')
        = [PStr (fst x) # map (\<lambda>p. PStr (fst p)) L', PBytes (snd x) # map (\<lambda>p. PBytes (snd p)) L']"
    by (rule py_zip_Cons2)
  with Cons show ?thesis by (simp add: types_of_def comp_def)
qed

lemma zip_types_parts: "zip (types_of L) (map snd L) = pairs_of L"
  by (induction L) (simp_all add: types_of_def pairs_of_def)

lemma extended_round_trip:
  assumes ne: "L \<noteq> []"
    and t: "utf8_encode T \<noteq> None"
    and h: "codec_round_trips J (headers_dict (setitem (Headers H) Content_Type (PList (types_of L))))"
  shows "\<exists>sent. send_message_ex J T (Mapping H) (tuples_of L) [] a
                 = (Inr (), a\<lparr>outbox := outbox a @ sent\<rparr>)
          \<and> (\<forall>b rest. inbox b = sent @ rest \<longrightarrow>
                recv_message_ex J flags b
                  = (Inr (T, setitem (Headers H) Content_Type (PList (types_of L)), pairs_of L),
                     b\<lparr>inbox := rest, rcvmore := False\<rparr>))"
proof -
  let ?hx = "setitem (Headers H) Content_Type (PList (types_of L))"
  let ?P = "map snd L"
  from t obtain tb where tb: "utf8_encode T = Some tb" by blast
  from h obtain jtext hb where j: "dumps J (PDict (headers_dict ?hx)) = Some jtext"
      "jtext \<noteq> []" "utf8_encode jtext = Some hb" "loads J jtext = Some (PDict (headers_dict ?hx))"
    by (auto simp: codec_round_trips_def split: option.splits)
  have hx: "Headers (headers_dict ?hx) = ?hx"
    by (simp add: headers_dict_def Headers_idem setitem_distinct Headers_distinct)
  let ?sent = "[(tb, True), (hb, ?P \<noteq> [])] @ part_frames ?P False"
  have kw: "([] :: (string \<times> int) list) = [] \<and> (0::int) = 0 \<or> [] = [(''flags'', 0::int)]"
    by simp
  have "send_message J T (Mapping (headers_dict ?hx)) (map PBytes ?P) [] a
          = (Inr (), a\<lparr>outbox := outbox a @ [(tb, True), (hb, ?P \<noteq> [] \<or> (0::int) AND SNDMORE \<noteq> 0)]
                              @ part_frames ?P ((0::int) AND SNDMORE \<noteq> 0)\<rparr>)"
    using kw tb _ j(3)
    by (rule send_message_sends) (simp add: chosen_headers_Mapping hx j(1))
  then have sm: "send_message J T (Mapping (headers_dict ?hx)) (map PBytes ?P) [] a
          = (Inr (), a\<lparr>outbox := outbox a @ ?sent\<rparr>)"
    by simp
  have hd: "(if truthy (Mapping H) then Headers_of (Mapping H) else Headers []) = Headers H"
    by simp
  have s: "send_message_ex J T (Mapping H) (tuples_of L) [] a
          = (Inr (), a\<lparr>outbox := outbox a @ ?sent\<rparr>)"
    using sm
    by (cases "H = []")
       (simp_all add: send_message_ex_def those_iter_tuples py_zip_tuples [OF ne])
  have r: "recv_message_ex J flags b
             = (Inr (T, ?hx, pairs_of L), b\<lparr>inbox := rest, rcvmore := False\<rparr>)"
    if "inbox b = ?sent @ rest" for b rest
  proof -
    from that have "inbox b = [(tb, True), (hb, ?P \<noteq> [])] @ part_frames ?P False @ rest"
      by simp
    from recv_message_of_frames [OF utf8_roundtrip [OF tb] utf8_roundtrip [OF j(3)] j(2) j(4) this]
    have "recv_message J flags b = (Inr (T, ?hx, ?P), b\<lparr>inbox := rest, rcvmore := False\<rparr>)"
      by (simp add: hx)
    moreover have "py_iter (getitem ?hx Content_Type) = Some (types_of L)"
      by (simp add: getitem_setitem)
    ultimately show ?thesis
      by (simp add: recv_message_ex_def zip_types_parts)
  qed
  from s r show ?thesis by blast
qed


text \<open>
  The scenario of the spec:
  \<open>send_message_ex("alerts", {}, ("text/plain", b"hi"), ("application/json", b"{}"))\<close>,
  then \<open>recv_message_ex\<close>. The headers text is
  \<open>{"Content-Type":["text/plain","application/json"]}\<close>.
\<close>

lemma alerts_bytes: "utf8_encode (str ''alerts'') = Some [0x61, 0x6C, 0x65, 0x72, 0x74, 0x73]"
  by code_simp

lemma scenario_text:
  "json_text (PDict [(str ''Content-Type'',
        PList [PStr (str ''text/plain''), PStr (str ''application/json'')])])
   = Some [123, 34, 67, 111, 110, 116, 101, 110, 116, 45, 84, 121, 112, 101, 34, 58, 91, 34, 116, 101,
    120, 116, 47, 112, 108, 97, 105, 110, 34, 44, 34, 97, 112, 112, 108, 105, 99, 97, 116, 105,
    111, 110, 47, 106, 115, 111, 110, 34, 93, 125]"
  by code_simp

lemma scenario_encodes: "utf8_encode [123, 34, 67, 111, 110, 116, 101, 110, 116, 45, 84, 121, 112, 101, 34, 58, 91, 34, 116, 101,
    120, 116, 47, 112, 108, 97, 105, 110, 34, 44, 34, 97, 112, 112, 108, 105, 99, 97, 116, 105,
    111, 110, 47, 106, 115, 111, 110, 34, 93, 125] \<noteq> None"
  by code_simp

lemma scenario_parsed:
  "json_parse [123, 34, 67, 111, 110, 116, 101, 110, 116, 45, 84, 121, 112, 101, 34, 58, 91, 34, 116, 101,
    120, 116, 47, 112, 108, 97, 105, 110, 34, 44, 34, 97, 112, 112, 108, 105, 99, 97, 116, 105,
    111, 110, 47, 106, 115, 111, 110, 34, 93, 125]
   = Some (PDict [(str ''Content-Type'',
        PList [PStr (str ''text/plain''), PStr (str ''application/json'')])])"
  by code_simp

lemma extended_scenario:
  "\<exists>sent. send_message_ex json (str ''alerts'') (Mapping [])
             (tuples_of [(str ''text/plain'', [0x68, 0x69]),
                         (str ''application/json'', [0x7B, 0x7D])]) []
             \<lparr>outbox = [], inbox = [], rcvmore = False\<rparr>
           = (Inr (), \<lparr>outbox = sent, inbox = [], rcvmore = False\<rparr>)
         \<and> recv_message_ex json 0 \<lparr>outbox = [], inbox = sent, rcvmore = False\<rparr>
           = (Inr (str ''alerts'',
                   [(str ''Content-Type'',
                     PList [PStr (str ''text/plain''), PStr (str ''application/json'')])],
                   [(PStr (str ''text/plain''), [0x68, 0x69]),
                    (PStr (str ''application/json''), [0x7B, 0x7D])]),
              \<lparr>outbox = [], inbox = [], rcvmore = False\<rparr>)"
proof -
  let ?L = "[(str ''text/plain'', [0x68, 0x69]), (str ''application/json'', [0x7B, 0x7D])]
              :: (ustr \<times> bytes) list"
  let ?d = "[(str ''Content-Type'',
              PList [PStr (str ''text/plain''), PStr (str ''application/json'')])]"
  have hx: "setitem (Headers []) Content_Type (PList (types_of ?L)) = ?d"
    by (simp add: Headers_Nil setitem_Nil types_of_def Content_Type_def)
  have ne: "?L \<noteq> []" by simp
  have t: "utf8_encode (str ''alerts'') \<noteq> None" by (simp add: alerts_bytes)
  have c: "codec_round_trips json (headers_dict (setitem (Headers []) Content_Type (PList (types_of ?L))))"
    unfolding hx using scenario_encodes
    by (simp add: codec_round_trips_def headers_dict_def json_def scenario_text scenario_parsed
          del: json_text.simps)
  from extended_round_trip [OF ne t c, of "\<lparr>outbox = [], inbox = [], rcvmore = False\<rparr>" 0]
  obtain sent where s: "send_message_ex json (str ''alerts'') (Mapping []) (tuples_of ?L) []
             \<lparr>outbox = [], inbox = [], rcvmore = False\<rparr>
           = (Inr (), \<lparr>outbox = [], inbox = [], rcvmore = False\<rparr>
                \<lparr>outbox := outbox \<lparr>outbox = [], inbox = [], rcvmore = False\<rparr> @ sent\<rparr>)"
    and r: "\<forall>b rest. inbox b = sent @ rest \<longrightarrow>
              recv_message_ex json 0 b
                = (Inr (str ''alerts'', setitem (Headers []) Content_Type (PList (types_of ?L)),
                        pairs_of ?L),
                   b\<lparr>inbox := rest, rcvmore := False\<rparr>)"
    by blast
  from r have "recv_message_ex json 0 \<lparr>outbox = [], inbox = sent, rcvmore = False\<rparr>
           = (Inr (str ''alerts'', setitem (Headers []) Content_Type (PList (types_of ?L)),
                   pairs_of ?L),
              \<lparr>outbox = [], inbox = sent, rcvmore = False\<rparr>\<lparr>inbox := [], rcvmore := False\<rparr>)"
    by (elim allE [where x = "\<lparr>outbox = [], inbox = sent, rcvmore = False\<rparr>"]
             allE [where x = "[]"]) simp
  with s show ?thesis
    unfolding hx by (intro exI [where x = sent]) (simp add: pairs_of_def)
qed

text \<open>
  C4. The extended round trip holds for every non-empty list of (content type, bytes)
  pairs (\<open>extended_round_trip\<close>, and \<open>extended_scenario\<close> for the scenario of the spec),
  but not for the empty list, which the spec includes: there \<open>send_message_ex\<close> raises
  \<open>ValueError\<close> and sends nothing, so that \<open>recv_message_ex\<close> on what was sent finds no
  frame instead of \<open>(T, Headers(H), [])\<close>. It is the defect of C3.
\<close>

theorem extended_round_trip_without_tuples:
  "send_message_ex J T H [] [] a = (Inl ValueError, a)
   \<and> recv_message_ex J flags
       (b\<lparr>inbox := drop (length (outbox a)) (outbox (snd (send_message_ex J T H [] [] a)))\<rparr>)
     = (Inl Again, b\<lparr>inbox := []\<rparr>)"
proof -
  have s: "send_message_ex J T H [] [] a = (Inl ValueError, a)"
    by (simp add: send_message_ex_def py_zip_Nil)
  have "recv_message_ex J flags (b\<lparr>inbox := []\<rparr>) = (Inl Again, b\<lparr>inbox := []\<rparr>)"
    by (simp add: recv_message_ex_def recv_message_def recv_string_def recv_def)
  with s show ?thesis by simp
qed

end
